theory Spec2Isabelle
  imports Complex_Main "HOL-Library.Multiset" "HOL-Library.Sublist" "HOL-Library.Log_Nat"
begin

section \<open>JavaScript strings\<close>

text \<open>
  A JavaScript string is a sequence of UTF-16 code units. The development models the code
  units below 256 (the Latin-1 range, which holds every character of the lexicons and cue
  tables) as \<^typ>\<open>char\<close>, so a string is a \<^typ>\<open>string\<close> and \<open>length\<close> is the
  \<open>.length\<close> of the source.
\<close>

definition isSpace :: "char \<Rightarrow> bool" where
  \<comment> \<open>the class \<open>\s\<close>, which is also what \<open>trim()\<close> strips: TAB, LF, VT, FF, CR, SPACE, NBSP\<close>
  "isSpace c = (of_char c \<in> {9, 10, 11, 12, 13, 32, 160 :: nat})"

definition isWordChar :: "char \<Rightarrow> bool" where
  \<comment> \<open>the class \<open>\w\<close>: \<open>[A-Za-z0-9_]\<close>\<close>
  "isWordChar c = (let n = (of_char c :: nat) in
     (65 \<le> n \<and> n \<le> 90) \<or> (97 \<le> n \<and> n \<le> 122) \<or> (48 \<le> n \<and> n \<le> 57) \<or> n = 95)"

definition toLowerChar :: "char \<Rightarrow> char" where
  \<comment> \<open>\<open>toLowerCase()\<close> on one code unit: A-Z, and the Latin-1 capitals except the
      multiplication sign, move up by 32\<close>
  "toLowerChar c = (let n = (of_char c :: nat) in
     if (65 \<le> n \<and> n \<le> 90) \<or> (192 \<le> n \<and> n \<le> 222 \<and> n \<noteq> 215)
     then char_of (n + 32) else c)"

definition toLowerCase :: "string \<Rightarrow> string" where
  "toLowerCase s = map toLowerChar s"

definition trim :: "string \<Rightarrow> string" where
  "trim s = rev (dropWhile isSpace (rev (dropWhile isSpace s)))"

text \<open>\<open>s.split(/\s+/)\<close>: every maximal run of white space is one separator; the pieces
  before the first and after the last separator are kept even when empty, so the empty
  string splits into one empty piece.\<close>

function splitWs :: "string \<Rightarrow> string list" where
  "splitWs s =
     (let piece = takeWhile (\<lambda>c. \<not> isSpace c) s;
          rest = dropWhile (\<lambda>c. \<not> isSpace c) s
      in if rest = [] then [piece] else piece # splitWs (dropWhile isSpace rest))"
  by pat_completeness auto
termination
proof (relation "measure length")
  fix s piece rest
  assume r: "rest = dropWhile (\<lambda>c. \<not> isSpace c) s" and ne: "rest \<noteq> []"
  have "length (dropWhile isSpace rest) < length rest"
  proof (cases rest)
    case Nil
    with ne show ?thesis by simp
  next
    case (Cons c cs)
    with r have "isSpace c"
      by (metis hd_dropWhile list.sel(1) ne)
    with Cons have "length (dropWhile isSpace rest) \<le> length cs"
      by (simp add: length_dropWhile_le)
    with Cons show ?thesis by simp
  qed
  moreover have "length rest \<le> length s"
    using r by (simp add: length_dropWhile_le)
  ultimately show "(dropWhile isSpace rest, s) \<in> measure length"
    by simp
qed simp

declare splitWs.simps [simp del]

section \<open>Sentiment scorer (services/nlp/sentiment.ts)\<close>

definition POSITIVE_WORDS :: "string list" where
  "POSITIVE_WORDS =
    [
     ''good'', ''great'', ''excellent'', ''amazing'', ''wonderful'', ''fantastic'',
     ''awesome'', ''love'', ''happy'', ''glad'', ''pleased'', ''delighted'', ''perfect'',
     ''beautiful'', ''brilliant'', ''outstanding'', ''superb'', ''terrific'',
     ''positive'', ''success'', ''successful'', ''agree'', ''agreed'', ''approval'',
     ''approve'', ''best'', ''better'', ''celebrate'', ''accomplished'', ''achieve'',
     ''benefit'', ''comfortable'', ''confident'', ''creative'', ''efficient'', ''enjoy'',
     ''excited'', ''exciting'', ''favorable'', ''fine'', ''fortunate'', ''helpful'',
     ''impressive'', ''improved'', ''incredible'', ''inspired'', ''interesting'',
     ''joyful'', ''nice'', ''optimistic'', ''promising'', ''remarkable'', ''satisfied'',
     ''smooth'', ''strong'', ''valuable'', ''welcome'', ''win'', ''won'', ''worth'',
     ''worthy'', ''ready'', ''progress'', ''resolved''
    ]"

definition NEGATIVE_WORDS :: "string list" where
  "NEGATIVE_WORDS =
    [
     ''bad'', ''terrible'', ''awful'', ''horrible'', ''poor'', ''worst'', ''hate'',
     ''angry'', ''sad'', ''disappointed'', ''frustrated'', ''annoyed'', ''upset'',
     ''fail'', ''failed'', ''failure'', ''wrong'', ''problem'', ''issue'', ''concern'',
     ''worried'', ''worry'', ''difficult'', ''hard'', ''painful'', ''unfortunately'',
     ''sadly'', ''regret'', ''unhappy'', ''disagree'', ''rejected'', ''reject'',
     ''block'', ''blocked'', ''blocker'', ''broken'', ''bug'', ''confusing'',
     ''complicated'', ''critical'', ''danger'', ''dangerous'', ''delay'', ''delayed'',
     ''deny'', ''deprecated'', ''destroy'', ''disaster'', ''error'', ''expensive'',
     ''impossible'', ''inadequate'', ''incomplete'', ''insecure'', ''invalid'',
     ''lacking'', ''lost'', ''missing'', ''negative'', ''never'', ''nightmare'',
     ''obsolete'', ''overdue'', ''overwhelm'', ''risk'', ''risky'', ''severe'', ''slow'',
     ''stuck'', ''threat'', ''trouble'', ''unable'', ''unclear'', ''unfair'',
     ''unfortunate'', ''unstable'', ''urgent'', ''vulnerable'', ''weak''
    ]"

definition NEGATION_WORDS :: "string list" where
  "NEGATION_WORDS =
    [
     ''not'', ''n't'', ''no'', ''never'', ''neither'', ''nor'', ''hardly'', ''barely'',
     ''scarcely'', ''rarely'', ''don't'', ''doesn't'', ''didn't'', ''won't'',
     ''wouldn't'', ''couldn't'', ''shouldn't'', ''isn't'', ''aren't'', ''wasn't''
    ]"

text \<open>The loop variables \<open>score\<close>, \<open>wordCount\<close> and \<open>negated\<close> of \<open>analyzeSentiment\<close>.\<close>

record scan =
  score :: int
  wordCount :: nat
  negated :: bool

text \<open>One round of the \<open>for (const word of words)\<close> loop.\<close>

definition scanWord :: "scan \<Rightarrow> string \<Rightarrow> scan" where
  "scanWord st word =
     (if word \<in> set NEGATION_WORDS then st\<lparr>negated := True\<rparr>
      else if word \<in> set POSITIVE_WORDS then
        \<lparr>score = score st + (if negated st then - 1 else 1),
         wordCount = wordCount st + 1, negated = False\<rparr>
      else if word \<in> set NEGATIVE_WORDS then
        \<lparr>score = score st + (if negated st then 1 else - 1),
         wordCount = wordCount st + 1, negated = False\<rparr>
      else st\<lparr>negated := False\<rparr>)"

definition initialScan :: scan where
  \<comment> \<open>\<open>let score = 0; let wordCount = 0; let negated = false;\<close>\<close>
  "initialScan = \<lparr>score = 0, wordCount = 0, negated = False\<rparr>"

definition scanWords :: "scan \<Rightarrow> string list \<Rightarrow> scan" where
  "scanWords st ws = foldl scanWord st ws"

definition sentimentWords :: "string \<Rightarrow> string list" where
  \<comment> \<open>\<open>text.toLowerCase().replace(/[^\w\s']/g, "").split(/\s+/)\<close>\<close>
  "sentimentWords t =
     splitWs (filter (\<lambda>c. isWordChar c \<or> isSpace c \<or> c = CHR 0x27) (toLowerCase t))"

text \<open>
  The score is a JavaScript number. \<open>score\<close> and \<open>wordCount\<close> are small integers, so the
  quotient is modelled as the exact rational; the double the source returns is that
  rational rounded to nearest, which has the same sign and lies in the same interval
  \<open>[-1, 1]\<close>.
\<close>

definition analyzeSentiment :: "string \<Rightarrow> rat" where
  "analyzeSentiment t =
     (let st = scanWords initialScan (sentimentWords t)
      in if wordCount st = 0 then 0
         else max (- 1) (min 1 (of_int (score st) / of_nat (max (wordCount st) 1))))"

definition analyzeSentimentBatch :: "string list \<Rightarrow> rat list" where
  "analyzeSentimentBatch segments = map analyzeSentiment segments"

section \<open>Data model (types/models.ts, services/ai/AiProvider.ts)\<close>

datatype FlashcardType = Qa | Cloze | TermDef | DefTerm

text \<open>\<open>AiFlashcardResult\<close> is a \<open>Flashcard\<close> without its identity, time stamps and
  scheduling state, so the full card is modelled as the extension of the draft.\<close>

record AiFlashcardResult =
  ctype :: FlashcardType
  front :: string
  back_side :: string
  tags :: "string list"

record Flashcard = AiFlashcardResult +
  card_id :: string
  noteId :: string
  difficulty :: int
  interval :: int
  repetitions :: int
  easiness :: rat
  nextReviewAt :: int
  createdAt :: int
  updatedAt :: int

record ActionItem =
  owner :: string
  task :: string
  due :: "string option"

record AiSummaryResult =
  tldr :: "string list"
  keyPoints :: "string list"
  decisions :: "string list"
  actionItems :: "ActionItem list"
  openQuestions :: "string list"
  topics :: "string list"
  highlights :: "string list"
  followUps :: "string list"
  sentimentBySegment :: "rat list"

record NoteSegment =
  seg_text :: string

section \<open>JavaScript numbers\<close>

text \<open>
  A JavaScript number is an IEEE 754 double. A finite double is modelled by the rational
  number it denotes, and every arithmetic operation of the source by the exact operation
  followed by \<open>toDouble\<close>, the rounding to the nearest number with a significand of 53 bits,
  a tie going to the even significand. \<open>ilog2 x\<close> is the exponent of a positive \<open>x\<close>, the
  integer \<open>k\<close> with \<open>2\<^sup>k \<le> x < 2\<^sup>k\<^sup>+\<^sup>1\<close>, and \<open>roundEven\<close> rounds the scaled significand.

  The exponent is unbounded in the model. \<open>Infinity\<close>, \<open>NaN\<close>, the sign of zero and the
  loss of precision below \<open>2\<^sup>-\<^sup>1\<^sup>0\<^sup>2\<^sup>2\<close> are not modelled, so the model is the program on
  finite numbers as long as no result reaches \<open>2\<^sup>1\<^sup>0\<^sup>2\<^sup>4\<close> in magnitude. \<open>isDouble x\<close> says
  that \<open>x\<close> is the value of a double.
\<close>

definition ilog2 :: "rat \<Rightarrow> int" where
  "ilog2 x = (if 1 \<le> x then bitlen \<lfloor>x\<rfloor> - 1 else - bitlen (\<lceil>1 / x\<rceil> - 1))"

definition roundEven :: "rat \<Rightarrow> int" where
  "roundEven y =
     (let f = \<lfloor>y\<rfloor>; r = y - of_int f
      in if r < 1 / 2 then f else if 1 / 2 < r then f + 1 else if even f then f else f + 1)"

definition toDouble :: "rat \<Rightarrow> rat" where
  "toDouble x =
     (if x = 0 then 0
      else let e = ilog2 \<bar>x\<bar> - 52
           in sgn x * of_int (roundEven (\<bar>x\<bar> / 2 powi e)) * 2 powi e)"

definition isDouble :: "rat \<Rightarrow> bool" where
  "isDouble x = (toDouble x = x)"

section \<open>Spaced repetition (services/nlp/srs.ts)\<close>

definition MS_PER_DAY :: int where
  "MS_PER_DAY = 86400000"

text \<open>The literal \<open>1.3\<close> is the double nearest to 13/10.\<close>

definition MIN_EASINESS :: rat where
  "MIN_EASINESS = toDouble (13 / 10)"

text \<open>The fields of \<open>SRSUpdate\<close>; they are primed to tell them from the fields of the
  card that \<open>computeSRS\<close> reads.\<close>

record SRSUpdate =
  id' :: string
  difficulty' :: int
  interval' :: int
  repetitions' :: int
  easiness' :: rat
  nextReviewAt' :: int
  updatedAt' :: int

text \<open>
  \<open>computeSRS\<close>, with \<open>Date.now()\<close> as the parameter \<open>now\<close>. The easiness of the card is a
  double; its interval and its repetitions are doubles with integer values, which is how
  the application creates them and how this function leaves them. Every decimal literal
  is read as its nearest double and every sum, difference, product and quotient is
  rounded by \<open>toDouble\<close>, in the order in which the source evaluates them; \<open>5 - rating\<close> and
  \<open>5 - rating + 1\<close> are exact, on integers from 0 to 6. \<open>Math.round x\<close> is \<open>\<lfloor>x + 1/2\<rfloor>\<close>
  without a rounding of its own, which is \<^const>\<open>round\<close>. \<open>floored\<close> is the local
  \<open>easiness\<close> after the \<open>MIN_EASINESS\<close> test, the value the interval is computed from;
  the returned field is its rounding to two decimals.
\<close>

definition computeSRS :: "Flashcard \<Rightarrow> int \<Rightarrow> int \<Rightarrow> SRSUpdate" where
  "computeSRS fcard rating now =
     (let d = of_int (5 - rating);
          e = toDouble (easiness fcard
                + toDouble (toDouble (1 / 10)
                    - toDouble (d * toDouble (toDouble (8 / 100)
                                               + toDouble (d * toDouble (2 / 100))))));
          floored = (if e < MIN_EASINESS then MIN_EASINESS else e);
          reps = (if rating < 3 then 0
                  else round (toDouble (of_int (repetitions fcard) + 1)));
          ival = (if rating < 3 then 0
                  else if reps = 1 then 1
                  else if reps = 2 then 6
                  else round (toDouble (of_int (interval fcard) * floored)));
          diff = max 1 (min 5 (5 - rating + 1))
      in \<lparr>id' = card_id fcard, difficulty' = diff, interval' = ival, repetitions' = reps,
          easiness' = toDouble (of_int (round (toDouble (floored * 100))) / 100),
          nextReviewAt' =
            round (toDouble (of_int now + toDouble (of_int ival * of_int MS_PER_DAY))),
          updatedAt' = now\<rparr>)"

definition filterDueCards :: "Flashcard list \<Rightarrow> int \<Rightarrow> Flashcard list" where
  "filterDueCards cards now = filter (\<lambda>c. nextReviewAt c \<le> now) cards"

section \<open>Sentence ranking (services/nlp/textrank.ts)\<close>

text \<open>\<open>text.split(/(?<=[.!?])\s+/)\<close>: a separator is a maximal run of white space that
  follows a full stop, an exclamation mark or a question mark. \<open>cur\<close> is the piece read
  so far, so its last character is the one the look-behind inspects.\<close>

definition isStop :: "char \<Rightarrow> bool" where
  "isStop c = (c = CHR ''.'' \<or> c = CHR ''!'' \<or> c = CHR ''?'')"

function splitAfterStop :: "string \<Rightarrow> string \<Rightarrow> string list" where
  "splitAfterStop cur [] = [cur]"
| "splitAfterStop cur (c # cs) =
     (if isSpace c \<and> cur \<noteq> [] \<and> isStop (last cur)
      then cur # splitAfterStop [] (dropWhile isSpace cs)
      else splitAfterStop (cur @ [c]) cs)"
  by pat_completeness auto
termination
  by (relation "measure (\<lambda>(cur, s). length s)")
     (auto simp: length_dropWhile_le less_Suc_eq_le)

definition splitSentences :: "string \<Rightarrow> string list" where
  "splitSentences t = filter (\<lambda>s. length s > 10) (map trim (splitAfterStop [] t))"

definition STOP_WORDS :: "string list" where
  "STOP_WORDS =
    [
     ''the'', ''a'', ''an'', ''and'', ''or'', ''but'', ''in'', ''on'', ''at'', ''to'',
     ''for'', ''of'', ''with'', ''by'', ''from'', ''is'', ''it'', ''its'', ''this'',
     ''that'', ''was'', ''are'', ''were'', ''be'', ''been'', ''being'', ''have'',
     ''has'', ''had'', ''do'', ''does'', ''did'', ''will'', ''would'', ''could'',
     ''should'', ''may'', ''might'', ''shall'', ''can'', ''not'', ''no'', ''nor'',
     ''so'', ''if'', ''then'', ''than'', ''too'', ''very'', ''just'', ''about'',
     ''above'', ''after'', ''again'', ''all'', ''also'', ''am'', ''any'', ''because'',
     ''before'', ''between'', ''both'', ''each'', ''few'', ''get'', ''got'', ''here'',
     ''how'', ''into'', ''more'', ''most'', ''much'', ''must'', ''my'', ''new'', ''now'',
     ''only'', ''other'', ''our'', ''out'', ''own'', ''same'', ''she'', ''some'',
     ''such'', ''there'', ''these'', ''they'', ''those'', ''through'', ''under'',
     ''until'', ''what'', ''when'', ''where'', ''which'', ''while'', ''who'', ''whom'',
     ''why'', ''you'', ''your'', ''we'', ''he'', ''her'', ''him'', ''his'', ''me'',
     ''them'', ''us''
    ]"

definition tokenize :: "string \<Rightarrow> string list" where
  \<comment> \<open>\<open>text.toLowerCase().replace(/[^\w\s]/g, "").split(/\s+/).filter(...)\<close>\<close>
  "tokenize t =
     filter (\<lambda>w. length w > 2 \<and> w \<notin> set STOP_WORDS)
       (splitWs (filter (\<lambda>c. isWordChar c \<or> isSpace c) (toLowerCase t)))"

text \<open>A \<open>Map<string, number>\<close> iterates in insertion order, which \<open>extractKeywords\<close>
  relies on, so it is an association list: \<open>set\<close> on a present key keeps its place.\<close>

fun bump :: "string \<Rightarrow> (string \<times> nat) list \<Rightarrow> (string \<times> nat) list" where
  "bump t [] = [(t, 1)]"
| "bump t ((k, v) # m) = (if k = t then (k, v + 1) # m else (k, v) # bump t m)"

definition wordFrequency :: "string list \<Rightarrow> (string \<times> nat) list" where
  "wordFrequency tokens = foldl (\<lambda>freq t. bump t freq) [] tokens"

definition getOr0 :: "(string \<times> nat) list \<Rightarrow> string \<Rightarrow> real" where
  \<comment> \<open>\<open>a.get(key) ?? 0\<close>\<close>
  "getOr0 a key = (case map_of a key of None \<Rightarrow> 0 | Some v \<Rightarrow> real v)"

text \<open>The scores of the ranking are doubles in the source and exact reals here.\<close>

definition cosineSimilarity :: "(string \<times> nat) list \<Rightarrow> (string \<times> nat) list \<Rightarrow> real" where
  "cosineSimilarity a b =
     (let allKeys = remdups (map fst a @ map fst b);
          dotProduct = (\<Sum>key\<leftarrow>allKeys. getOr0 a key * getOr0 b key);
          magA = (\<Sum>key\<leftarrow>allKeys. getOr0 a key * getOr0 a key);
          magB = (\<Sum>key\<leftarrow>allKeys. getOr0 b key * getOr0 b key)
      in if magA = 0 \<or> magB = 0 then 0 else dotProduct / (sqrt magA * sqrt magB))"

text \<open>\<open>xs.slice(0, k)\<close>: a negative \<open>k\<close> counts from the end of the array.\<close>

definition slice0 :: "'a list \<Rightarrow> int \<Rightarrow> 'a list" where
  "slice0 xs k = (if k < 0 then take (nat (int (length xs) + k)) xs else take (nat k) xs)"

definition similarityMatrix :: "(string \<times> nat) list list \<Rightarrow> real list list" where
  \<comment> \<open>zero on the diagonal, \<open>sim (freqs[i], freqs[j])\<close> with \<open>i < j\<close> in both triangles\<close>
  "similarityMatrix freqs =
     (let n = length freqs
      in map (\<lambda>i. map (\<lambda>j. if i = j then 0
                              else cosineSimilarity (freqs ! min i j) (freqs ! max i j))
                      [0..<n]) [0..<n])"

definition rankStep :: "real list list \<Rightarrow> real list \<Rightarrow> real list" where
  \<comment> \<open>the body of the \<open>iter\<close> loop: \<open>newScores\<close> from \<open>scores\<close>, damping 0.85\<close>
  "rankStep matrix scores =
     (let n = length matrix
      in map (\<lambda>i. (1 - 85 / 100) / real n
                  + 85 / 100 * (\<Sum>j\<leftarrow>filter (\<lambda>j. j \<noteq> i) [0..<n].
                       (let outSum = sum_list (matrix ! j)
                        in if outSum > 0 then matrix ! j ! i / outSum * scores ! j else 0)))
             [0..<n])"

text \<open>The \<open>iter\<close> loop, counted down: \<open>k\<close> rounds are left of the 50.\<close>

fun rankIterate :: "nat \<Rightarrow> real list list \<Rightarrow> real list \<Rightarrow> real list" where
  "rankIterate 0 matrix scores = scores"
| "rankIterate (Suc k) matrix scores =
     (let newScores = rankStep matrix scores;
          delta = (\<Sum>i\<leftarrow>[0..<length matrix]. \<bar>newScores ! i - scores ! i\<bar>)
      in if delta < 1 / 10000 then newScores else rankIterate k matrix newScores)"

text \<open>\<open>Array.prototype.sort\<close> is stable, as \<^const>\<open>sort_key\<close> is.\<close>

definition textRank :: "string list \<Rightarrow> int \<Rightarrow> nat list" where
  "textRank sentences topN =
     (let n = length sentences
      in if n = 0 then []
         else if int n \<le> topN then [0..<n]
         else
           (let freqs = map wordFrequency (map tokenize sentences);
                matrix = similarityMatrix freqs;
                scores = rankIterate 50 matrix (replicate n (1 / real n));
                indexed = zip scores [0..<n];
                sorted = sort_key (\<lambda>x. - fst x) indexed
            in map snd (slice0 sorted topN)))"

definition extractKeywords :: "string \<Rightarrow> int \<Rightarrow> string list" where
  "extractKeywords t topN =
     (let freq = wordFrequency (tokenize t);
          sorted = sort_key (\<lambda>e. - int (snd e)) freq
      in map fst (slice0 sorted topN))"

section \<open>Chunking (utils/text.ts)\<close>

text \<open>The \<open>for (const sentence of sentences)\<close> loop of \<open>chunkText\<close> with its two
  variables \<open>chunks\<close> and \<open>current\<close>, and the final push after the loop.\<close>

fun chunkLoop :: "int \<Rightarrow> string list \<Rightarrow> string \<Rightarrow> string list \<Rightarrow> string list" where
  "chunkLoop maxChars chunks current [] =
     (if trim current \<noteq> [] then chunks @ [trim current] else chunks)"
| "chunkLoop maxChars chunks current (sentence # rest) =
     (let full = (int (length current) + int (length sentence) + 1 > maxChars
                  \<and> length current > 0);
          chunks1 = (if full then chunks @ [trim current] else chunks);
          current1 = (if full then [] else current)
      in chunkLoop maxChars chunks1
           (current1 @ (if current1 \<noteq> [] then '' '' else []) @ sentence) rest)"

definition chunkText :: "string \<Rightarrow> int \<Rightarrow> string list" where
  "chunkText t maxChars =
     (if int (length t) \<le> maxChars then [t]
      else chunkLoop maxChars [] [] (splitAfterStop [] t))"

section \<open>Regular expressions of the cue tables\<close>

text \<open>
  The cue patterns use literals, classes, alternation, greedy repetition and one capture
  group. \<open>rxMatch r s\<close> lists the ways \<open>r\<close> matches a prefix of \<open>s\<close>, in the order a
  backtracking matcher tries them: each entry is the unread rest and the text of the
  capture group, if the group took part.
\<close>

datatype rx =
    Lit "char \<Rightarrow> bool"
  | Eps
  | Seq rx rx
  | Alt rx rx
  | Plus rx
  | Group rx

definition keepCapture :: "string option \<Rightarrow> string \<times> string option \<Rightarrow> string \<times> string option"
  where
  \<comment> \<open>a later part of a sequence that has no group leaves the capture as it was\<close>
  "keepCapture cap m = (fst m, if snd m = None then cap else snd m)"

text \<open>\<open>seqAll b ms\<close> continues every way \<open>ms\<close> of matching the first part of a sequence
  with the second part \<open>b\<close>. \<open>plusAll a s ms\<close> does so for a repetition of \<open>a\<close> read from
  \<open>s\<close>: each way is tried with one more round first (greedy) and then as it is; a round
  that read nothing is not repeated.\<close>

function rxMatch :: "rx \<Rightarrow> string \<Rightarrow> (string \<times> string option) list"
  and seqAll :: "rx \<Rightarrow> (string \<times> string option) list \<Rightarrow> (string \<times> string option) list"
  and plusAll ::
    "rx \<Rightarrow> string \<Rightarrow> (string \<times> string option) list \<Rightarrow> (string \<times> string option) list"
  where
  "rxMatch (Lit p) [] = []"
| "rxMatch (Lit p) (c # cs) = (if p c then [(cs, None)] else [])"
| "rxMatch Eps s = [(s, None)]"
| "rxMatch (Seq a b) s = seqAll b (rxMatch a s)"
| "rxMatch (Alt a b) s = rxMatch a s @ rxMatch b s"
| "rxMatch (Plus a) s = plusAll a s (rxMatch a s)"
| "rxMatch (Group a) s =
     map (\<lambda>m. (fst m, Some (take (length s - length (fst m)) s))) (rxMatch a s)"
| "seqAll b [] = []"
| "seqAll b (m # ms) = map (keepCapture (snd m)) (rxMatch b (fst m)) @ seqAll b ms"
| "plusAll a s [] = []"
| "plusAll a s (m # ms) =
     (if length (fst m) < length s
      then map (keepCapture (snd m)) (rxMatch (Plus a) (fst m)) else [])
     @ m # plusAll a s ms"
  by pat_completeness auto
termination
  by (relation "inv_image (less_than <*lex*> less_than <*lex*> less_than <*lex*> less_than)
        (\<lambda>x. case x of
            Inl (r, s) \<Rightarrow> (2 * size r, length s, 1 :: nat, 0 :: nat)
          | Inr (Inl (b, ms)) \<Rightarrow> (2 * size b + 1, 0, 0, length ms)
          | Inr (Inr (a, s, ms)) \<Rightarrow> (2 * size (Plus a), length s, 0, length ms))")
     auto

text \<open>\<open>s.match(r)\<close> for a pattern without the \<open>g\<close> flag: the first way to match at the
  leftmost position that has one. \<open>None\<close> is \<open>null\<close>; \<open>Some cap\<close> carries \<open>match[1]\<close>.\<close>

definition firstCapture :: "(string \<times> string option) list \<Rightarrow> string option option" where
  "firstCapture ms = (case ms of [] \<Rightarrow> None | m # _ \<Rightarrow> Some (snd m))"

definition rxExecAt :: "rx \<Rightarrow> string \<Rightarrow> string option option" where
  "rxExecAt r s = firstCapture (rxMatch r s)"

fun rxExec :: "rx \<Rightarrow> string \<Rightarrow> string option option" where
  "rxExec r [] = rxExecAt r []"
| "rxExec r (c # cs) =
     (case rxExecAt r (c # cs) of None \<Rightarrow> rxExec r cs | Some cap \<Rightarrow> Some cap)"

definition rxTest :: "rx \<Rightarrow> string \<Rightarrow> bool" where
  "rxTest r s = (rxExec r s \<noteq> None)"

definition ci :: "char \<Rightarrow> rx" where
  \<comment> \<open>one literal character under the \<open>i\<close> flag\<close>
  "ci k = Lit (\<lambda>c. toLowerChar c = toLowerChar k)"

definition lit :: "string \<Rightarrow> rx" where
  "lit w = foldr (\<lambda>k r. Seq (ci k) r) w Eps"

definition alts :: "rx list \<Rightarrow> rx" where
  \<comment> \<open>\<open>r1|r2|...|rn\<close> of a non-empty list\<close>
  "alts rs = foldr Alt (butlast rs) (last rs)"

definition seqs :: "rx list \<Rightarrow> rx" where
  "seqs rs = foldr Seq rs Eps"

definition opt :: "rx \<Rightarrow> rx" where
  "opt r = Alt r Eps"

definition ws1 :: rx where
  \<comment> \<open>\<open>\s+\<close>\<close>
  "ws1 = Plus (Lit isSpace)"

definition isDigit :: "char \<Rightarrow> bool" where
  "isDigit c = (48 \<le> (of_char c :: nat) \<and> (of_char c :: nat) \<le> 57)"

definition isLineTerminator :: "char \<Rightarrow> bool" where
  "isLineTerminator c = (of_char c \<in> {10, 13 :: nat})"

definition anyPlus :: rx where
  \<comment> \<open>\<open>(.+)\<close>: the dot matches everything but a line terminator\<close>
  "anyPlus = Group (Plus (Lit (\<lambda>c. \<not> isLineTerminator c)))"

section \<open>Rule-based extraction (services/ai/offline/OfflineProvider.ts,
  services/nlp/localSummarizer.ts)\<close>

text \<open>Both files hold the same cue tables and the same \<open>extractActionItems\<close>.\<close>

definition DECISION_CUES :: "rx list" where
  "DECISION_CUES =
     [lit ''we decided'', lit ''it was decided'', lit ''the decision is'', lit ''we agreed'',
      lit ''agreed to'', lit ''will go with'', lit ''final decision'', lit ''conclusion is'',
      lit ''we'll proceed'', lit ''approved'', lit ''let's go ahead'']"

definition subject :: rx where
  \<comment> \<open>\<open>(?:i|we|he|she|they|you)\<close>\<close>
  "subject = alts [lit ''i'', lit ''we'', lit ''he'', lit ''she'', lit ''they'', lit ''you'']"

definition colonOrSpace1 :: rx where
  \<comment> \<open>\<open>[:\s]+\<close>\<close>
  "colonOrSpace1 = Plus (Lit (\<lambda>c. c = CHR '':'' \<or> isSpace c))"

definition ACTION_CUES :: "rx list" where
  "ACTION_CUES =
     [seqs [subject, ws1, lit ''will'', ws1, anyPlus],
      seqs [subject, ws1, lit ''need'', ws1, lit ''to'', ws1, anyPlus],
      seqs [lit ''please'', ws1, anyPlus],
      seqs [lit ''action'', opt ws1, lit ''item'', colonOrSpace1, anyPlus],
      seqs [lit ''todo'', colonOrSpace1, anyPlus],
      seqs [subject, ws1, lit ''should'', ws1, anyPlus],
      seqs [lit ''make sure'', ws1, anyPlus],
      seqs [lit ''follow'', ws1, lit ''up'', ws1, alts [lit ''on'', lit ''with''], ws1, anyPlus]]"

definition QUESTION_STARTERS :: "string list" where
  "QUESTION_STARTERS =
     [''Who is responsible for'', ''When will'', ''What is the timeline for'', ''Why was'',
      ''How will we handle'', ''What are the next steps for'', ''Who will follow up on'',
      ''What is the status of'']"

definition SUBJECT_RX :: rx where
  \<comment> \<open>\<open>/^([\w]+)\s+(?:will|need|should)/i\<close>, tried at the start of the sentence only\<close>
  "SUBJECT_RX =
     seqs [Group (Plus (Lit isWordChar)), ws1, alts [lit ''will'', lit ''need'', lit ''should'']]"

definition digit :: rx where
  "digit = Lit isDigit"

definition DATE_RX :: rx where
  \<comment> \<open>\<open>/by\s+(monday|...|end\s+of\s+(?:day|week|month)|\d{1,2}\/\d{1,2}(?:\/\d{2,4})?)/i\<close>\<close>
  "DATE_RX =
     seqs [lit ''by'', ws1,
       Group (alts
         [lit ''monday'', lit ''tuesday'', lit ''wednesday'', lit ''thursday'', lit ''friday'',
          lit ''saturday'', lit ''sunday'', lit ''tomorrow'',
          seqs [lit ''next'', ws1, lit ''week''],
          seqs [lit ''end'', ws1, lit ''of'', ws1, alts [lit ''day'', lit ''week'', lit ''month'']],
          seqs [digit, opt digit, lit ''/'', digit, opt digit,
                opt (seqs [lit ''/'', digit, digit, opt (seqs [digit, opt digit])])]])]"

text \<open>The inner \<open>for (const cue of ACTION_CUES)\<close> loop up to its \<open>break\<close>: the task of
  the first cue that matches with a task of five characters or more that was not seen
  before. A cue whose task is refused is skipped by \<open>continue\<close> and the next cue is tried.\<close>

fun firstTask :: "rx list \<Rightarrow> string \<Rightarrow> string list \<Rightarrow> string option" where
  "firstTask [] sentence seen = None"
| "firstTask (cue # cues) sentence seen =
     (case rxExec cue sentence of
        None \<Rightarrow> firstTask cues sentence seen
      | Some cap \<Rightarrow>
          (let task = (case cap of None \<Rightarrow> trim sentence
                       | Some g \<Rightarrow> if trim g = [] then trim sentence else trim g)
           in if length task < 5 \<or> toLowerCase task \<in> set seen
              then firstTask cues sentence seen
              else Some task))"

definition detectOwner :: "string \<Rightarrow> string \<Rightarrow> string" where
  "detectOwner sentence userName =
     (case rxExecAt SUBJECT_RX sentence of
        Some (Some subj) \<Rightarrow>
          if toLowerCase subj \<in> {''i'', ''we''} then userName else subj
      | _ \<Rightarrow> userName)"

definition detectDue :: "string \<Rightarrow> string option" where
  "detectDue sentence = (case rxExec DATE_RX sentence of Some cap \<Rightarrow> cap | None \<Rightarrow> None)"

text \<open>The outer loop, with its variables \<open>items\<close> and \<open>seen\<close>.\<close>

fun actionLoop :: "string \<Rightarrow> ActionItem list \<Rightarrow> string list \<Rightarrow> string list \<Rightarrow> ActionItem list"
  where
  "actionLoop userName items seen [] = items"
| "actionLoop userName items seen (sentence # rest) =
     (case firstTask ACTION_CUES sentence seen of
        None \<Rightarrow> actionLoop userName items seen rest
      | Some t \<Rightarrow>
          actionLoop userName
            (items @ [\<lparr>owner = detectOwner sentence userName, task = t,
                       due = detectDue sentence\<rparr>])
            (toLowerCase t # seen) rest)"

definition extractActionItems :: "string list \<Rightarrow> string \<Rightarrow> ActionItem list" where
  "extractActionItems sentences userName = actionLoop userName [] [] sentences"

definition isDecision :: "string \<Rightarrow> bool" where
  \<comment> \<open>\<open>DECISION_CUES.some((cue) => cue.test(s))\<close>\<close>
  "isDecision s = list_ex (\<lambda>cue. rxTest cue s) DECISION_CUES"

definition extractDecisions :: "string list \<Rightarrow> string list" where
  \<comment> \<open>OfflineProvider.ts\<close>
  "extractDecisions sentences = take 10 (filter isDecision sentences)"

definition extractDecisions_local :: "string list \<Rightarrow> string list" where
  \<comment> \<open>localSummarizer.ts, which trims what it keeps\<close>
  "extractDecisions_local sentences = take 10 (map trim (filter isDecision sentences))"

definition endsWithQuestionMark :: "string \<Rightarrow> bool" where
  \<comment> \<open>\<open>s.trim().endsWith("?")\<close>\<close>
  "endsWithQuestionMark s = (trim s \<noteq> [] \<and> last (trim s) = CHR ''?'')"

definition extractOpenQuestions :: "string list \<Rightarrow> string list" where
  "extractOpenQuestions sentences = take 10 (filter endsWithQuestionMark sentences)"

definition toUpperChar :: "char \<Rightarrow> char" where
  \<comment> \<open>\<open>toUpperCase()\<close> on the first character of a keyword, which is one of
      \<open>[a-z0-9_]\<close>; the Latin-1 small letters with a Latin-1 capital move as well\<close>
  "toUpperChar c = (let n = (of_char c :: nat) in
     if (97 \<le> n \<and> n \<le> 122) \<or> (224 \<le> n \<and> n \<le> 254 \<and> n \<noteq> 247)
     then char_of (n - 32) else c)"

definition capitalize :: "string \<Rightarrow> string" where
  \<comment> \<open>\<open>t.charAt(0).toUpperCase() + t.slice(1)\<close>\<close>
  "capitalize t = (case t of [] \<Rightarrow> [] | c # cs \<Rightarrow> toUpperChar c # cs)"

definition extractTopics :: "string \<Rightarrow> string list" where
  "extractTopics t =
     map capitalize (take 10 (filter (\<lambda>kw. length kw > 3) (extractKeywords t 20)))"

text \<open>
  \<open>generateFollowUps\<close> draws from \<open>Math.random\<close>. The draws are a parameter: \<open>rnd k\<close> is
  the value of \<open>Math.floor(Math.random() * QUESTION_STARTERS.length)\<close> at the \<open>k\<close>-th call.
  \<open>pickStarter\<close> is the \<open>while\<close> loop that steps to a starter not used yet.
\<close>

function pickStarter :: "nat list \<Rightarrow> nat \<Rightarrow> nat" where
  "pickStarter used idx =
     (if idx \<in> set used \<and> card (set used) < 8 then pickStarter used ((idx + 1) mod 8)
      else idx)"
  by pat_completeness auto
termination
proof (relation "measure (\<lambda>(used, idx).
          if idx < 8 then (LEAST k. (idx + k) mod 8 \<notin> set used) else 9)")
  show "wf (measure (\<lambda>(used, idx).
          if idx < 8 then (LEAST k. (idx + k) mod 8 \<notin> set used) else 9))"
    by simp
next
  fix used :: "nat list" and idx :: nat
  assume a: "idx \<in> set used \<and> card (set used) < 8"
  let ?L = "\<lambda>i. LEAST k. (i + k) mod 8 \<notin> set used"
  have "\<not> {0..<8} \<subseteq> set used"
  proof
    assume "{0..<8} \<subseteq> set used"
    then have "card {0..<8::nat} \<le> card (set used)"
      by (intro card_mono) simp_all
    with a show False by simp
  qed
  then obtain j where "j \<in> {0..<8}" and "j \<notin> set used"
    by blast
  then have j: "j < 8" "j \<notin> set used"
    by simp_all
  have free: "\<exists>k<8. (i + k) mod 8 \<notin> set used" if "i < 8" for i
  proof -
    have "(i + (j + 8 - i) mod 8) mod 8 = j"
      using j(1) that by (simp add: mod_simps)
    with j(2) have "(i + (j + 8 - i) mod 8) mod 8 \<notin> set used"
      by simp
    moreover have "(j + 8 - i) mod 8 < 8" by simp
    ultimately show ?thesis by blast
  qed
  have small: "?L i < 8" if "i < 8" for i
  proof -
    from free [OF that] obtain k where k: "k < 8" "(i + k) mod 8 \<notin> set used" by blast
    have "?L i \<le> k"
      using k(2) by (rule Least_le)
    with k(1) show ?thesis by simp
  qed
  let ?i = "(idx + 1) mod 8"
  have i8: "?i < 8" by simp
  show "((used, ?i), (used, idx)) \<in> measure (\<lambda>(used, idx).
          if idx < 8 then (LEAST k. (idx + k) mod 8 \<notin> set used) else 9)"
  proof (cases "idx < 8")
    case False
    with small [OF i8] show ?thesis by simp
  next
    case True
    from free [OF True] have ex: "\<exists>k. (idx + k) mod 8 \<notin> set used" by blast
    have "?L idx \<noteq> 0"
    proof
      assume "?L idx = 0"
      with LeastI_ex [OF ex] have "idx mod 8 \<notin> set used" by simp
      with True a show False by simp
    qed
    then obtain m where m: "?L idx = Suc m" by (cases "?L idx") auto
    with LeastI_ex [OF ex] have "(idx + Suc m) mod 8 \<notin> set used" by simp
    then have "(?i + m) mod 8 \<notin> set used"
      by (simp add: mod_simps)
    then have "?L ?i \<le> m" by (rule Least_le)
    with m True i8 show ?thesis by simp
  qed
qed

declare pickStarter.simps [simp del]

fun followLoop :: "(nat \<Rightarrow> nat) \<Rightarrow> nat \<Rightarrow> nat list \<Rightarrow> string list \<Rightarrow> string list \<Rightarrow> string list"
  where
  "followLoop rnd k usedStarters ups [] = ups"
| "followLoop rnd k usedStarters ups (topic # rest) =
     (let idx = pickStarter usedStarters (rnd k);
          starter = (if idx < length QUESTION_STARTERS then QUESTION_STARTERS ! idx
                     else ''undefined'')
      in followLoop rnd (k + 1) (idx # usedStarters)
           (ups @ [starter @ '' '' @ topic @ ''?'']) rest)"

definition generateFollowUps :: "(nat \<Rightarrow> nat) \<Rightarrow> string list \<Rightarrow> string list" where
  "generateFollowUps rnd tops = take 5 (followLoop rnd 0 [] [] (take 5 tops))"

section \<open>Summary assembly\<close>

text \<open>\<open>topIndices.sort((a, b) => a - b).map((i) => sentences[i])\<close>: the chosen
  sentences in their original order.\<close>

definition inOriginalOrder :: "string list \<Rightarrow> nat list \<Rightarrow> string list" where
  "inOriginalOrder sentences indices = map (\<lambda>i. sentences ! i) (sort indices)"

definition extractHighlights :: "string list \<Rightarrow> string list" where
  \<comment> \<open>localSummarizer.ts\<close>
  "extractHighlights sentences =
     (if length sentences = 0 then []
      else filter (\<lambda>s. length s > 20)
             (inOriginalOrder sentences
                (textRank sentences (min 10 (int (length sentences))))))"

text \<open>\<open>transcript.split(/\.\s+/)\<close>: a separator is a full stop with the white space
  after it.\<close>

function splitDotSpace :: "string \<Rightarrow> string \<Rightarrow> string list" where
  "splitDotSpace cur [] = [cur]"
| "splitDotSpace cur (c # cs) =
     (if c = CHR ''.'' \<and> cs \<noteq> [] \<and> isSpace (hd cs)
      then cur # splitDotSpace [] (dropWhile isSpace cs)
      else splitDotSpace (cur @ [c]) cs)"
  by pat_completeness auto
termination
  by (relation "measure (\<lambda>(cur, s). length s)")
     (auto simp: length_dropWhile_le less_Suc_eq_le)

text \<open>\<open>OfflineProvider.summarize\<close>, with the draws of \<open>Math.random\<close> as \<open>rnd\<close>.\<close>

definition summarize :: "(nat \<Rightarrow> nat) \<Rightarrow> string \<Rightarrow> string \<Rightarrow> AiSummaryResult" where
  "summarize rnd transcript userName =
     (let sentences = splitSentences transcript;
          n = int (length sentences);
          tops = extractTopics transcript;
          segmentTexts = filter (\<lambda>s. s \<noteq> []) (splitDotSpace [] transcript)
      in \<lparr>tldr = inOriginalOrder sentences (textRank sentences (min 5 n)),
          keyPoints = inOriginalOrder sentences (textRank sentences (min 10 n)),
          decisions = extractDecisions sentences,
          actionItems = extractActionItems sentences userName,
          openQuestions = take 10 (filter endsWithQuestionMark sentences),
          topics = tops,
          highlights = filter (\<lambda>s. length s > 20)
                         (inOriginalOrder sentences (textRank sentences (min 10 n))),
          followUps = generateFollowUps rnd tops,
          sentimentBySegment = analyzeSentimentBatch segmentTexts\<rparr>)"

text \<open>\<open>localSummarizer.summarize\<close>; \<open>generateId()\<close> and \<open>Date.now()\<close> are the parameters
  \<open>newId\<close> and \<open>now\<close>.\<close>

record Summary = AiSummaryResult +
  summary_id :: string
  summary_noteId :: string
  summary_createdAt :: int
  provider :: string

definition joinWith :: "string \<Rightarrow> string list \<Rightarrow> string" where
  \<comment> \<open>\<open>xs.join(sep)\<close>\<close>
  "joinWith sep xs = (case xs of [] \<Rightarrow> [] | y # ys \<Rightarrow> y @ concat (map (\<lambda>z. sep @ z) ys))"

definition summarize_local ::
  "(nat \<Rightarrow> nat) \<Rightarrow> string \<Rightarrow> int \<Rightarrow> string \<Rightarrow> NoteSegment list \<Rightarrow> string \<Rightarrow> Summary" where
  "summarize_local rnd newId now nid segments userName =
     (let fullText = joinWith ''. '' (map seg_text segments);
          sentences = splitSentences fullText;
          n = int (length sentences);
          tops = extractTopics fullText
      in \<lparr>tldr = inOriginalOrder sentences (textRank sentences (min 5 n)),
          keyPoints = inOriginalOrder sentences (textRank sentences (min 10 n)),
          decisions = extractDecisions_local sentences,
          actionItems = extractActionItems sentences userName,
          openQuestions = extractOpenQuestions sentences,
          topics = tops,
          highlights = extractHighlights sentences,
          followUps = generateFollowUps rnd tops,
          sentimentBySegment = analyzeSentimentBatch (map seg_text segments),
          summary_id = newId, summary_noteId = nid, summary_createdAt = now,
          provider = ''offline''\<rparr>)"

section \<open>Flashcard synthesis (services/nlp/flashcardGenerator.ts,
  services/ai/offline/OfflineProvider.ts)\<close>

definition startsWithUpper :: "string \<Rightarrow> bool" where
  \<comment> \<open>\<open>point.match(/^[A-Z]/)\<close>\<close>
  "startsWithUpper s =
     (case s of [] \<Rightarrow> False | c # _ \<Rightarrow> 65 \<le> (of_char c :: nat) \<and> (of_char c :: nat) \<le> 90)"

definition keyPointQuestion :: "string \<Rightarrow> string" where
  \<comment> \<open>the question of a key point with its first five words, or \<open>Explain: ...\<close>\<close>
  "keyPointQuestion point =
     (let tokens = splitWs point
      in if length tokens > 3
         then ''What is the key point about: '' @ [CHR 0x22] @ joinWith '' '' (take 5 tokens)
                @ ''...'' @ [CHR 0x22] @ ''?''
         else ''Explain: '' @ point)"

text \<open>
  The cloze pattern is \<open>new RegExp("\\b" + escapeRegex(keyword) + "\\b", "gi")\<close>: the keyword
  as a literal, without regard to case, between two word boundaries. \<open>prev\<close> is the
  character before the position, \<open>None\<close> at the start of the sentence.
\<close>

definition isWordOpt :: "char option \<Rightarrow> bool" where
  "isWordOpt c = (case c of None \<Rightarrow> False | Some x \<Rightarrow> isWordChar x)"

definition headOpt :: "string \<Rightarrow> char option" where
  "headOpt s = (case s of [] \<Rightarrow> None | c # _ \<Rightarrow> Some c)"

definition wordAt :: "string \<Rightarrow> char option \<Rightarrow> string \<Rightarrow> bool" where
  "wordAt keyword prev s =
     (keyword \<noteq> [] \<and> length keyword \<le> length s
      \<and> toLowerCase (take (length keyword) s) = toLowerCase keyword
      \<and> isWordOpt prev \<noteq> isWordOpt (headOpt s)
      \<and> isWordOpt (Some (s ! (length keyword - 1)))
          \<noteq> isWordOpt (headOpt (drop (length keyword) s)))"

fun containsWord :: "string \<Rightarrow> char option \<Rightarrow> string \<Rightarrow> bool" where
  \<comment> \<open>\<open>regex.test(sentence)\<close>\<close>
  "containsWord keyword prev [] = False"
| "containsWord keyword prev (c # cs) =
     (wordAt keyword prev (c # cs) \<or> containsWord keyword (Some c) cs)"

function maskWord :: "string \<Rightarrow> char option \<Rightarrow> string \<Rightarrow> string" where
  \<comment> \<open>\<open>sentence.replace(regex, "[___]")\<close>\<close>
  "maskWord keyword prev [] = []"
| "maskWord keyword prev (c # cs) =
     (if wordAt keyword prev (c # cs)
      then ''[___]'' @ maskWord keyword (Some ((c # cs) ! (length keyword - 1)))
                          (drop (length keyword - 1) cs)
      else c # maskWord keyword (Some c) cs)"
  by pat_completeness auto
termination
  by (relation "measure (\<lambda>(keyword, prev, s). length s)") auto

text \<open>The strategies yield drafts; \<open>makeCard\<close> adds the identity, the note and the
  default scheduling state. \<open>ids k\<close> and \<open>clock k\<close> are what \<open>generateId()\<close> and
  \<open>Date.now()\<close> return in the \<open>k\<close>-th call of \<open>makeCard\<close>.\<close>

definition draft :: "FlashcardType \<Rightarrow> string \<Rightarrow> string \<Rightarrow> string list \<Rightarrow> AiFlashcardResult"
  where
  "draft ty f b tgs = \<lparr>ctype = ty, front = f, back_side = b, tags = tgs\<rparr>"

definition makeCard ::
  "(nat \<Rightarrow> string) \<Rightarrow> (nat \<Rightarrow> int) \<Rightarrow> string \<Rightarrow> nat \<Rightarrow> AiFlashcardResult \<Rightarrow> Flashcard" where
  "makeCard ids clock nid k d =
     \<lparr>ctype = ctype d, front = front d, back_side = back_side d, tags = tags d,
      card_id = ids k, noteId = nid, difficulty = 3, interval = 0, repetitions = 0,
      easiness = 5 / 2, nextReviewAt = clock k, createdAt = clock k, updatedAt = clock k\<rparr>"

definition makeCards ::
  "(nat \<Rightarrow> string) \<Rightarrow> (nat \<Rightarrow> int) \<Rightarrow> string \<Rightarrow> nat \<Rightarrow> AiFlashcardResult list \<Rightarrow> Flashcard list"
  where
  "makeCards ids clock nid k ds =
     map (\<lambda>(i, d). makeCard ids clock nid (k + i) d) (zip [0..<length ds] ds)"

definition generateQACards :: "string list \<Rightarrow> string list \<Rightarrow> AiFlashcardResult list" where
  \<comment> \<open>flashcardGenerator.ts: a key point that does not start with a capital is its own
      question\<close>
  "generateQACards kps tops =
     map (\<lambda>point. draft Qa (if startsWithUpper point then keyPointQuestion point else point)
                     point (take 3 tops)) kps"

definition clozeOf :: "string list \<Rightarrow> string \<Rightarrow> AiFlashcardResult list" where
  \<comment> \<open>one round of the cloze loop: no card, or the card of the sentence\<close>
  "clozeOf tops sentence =
     (case extractKeywords sentence 3 of
        [] \<Rightarrow> []
      | keyword # _ \<Rightarrow>
          if \<not> containsWord keyword None sentence then []
          else [draft Cloze (maskWord keyword None sentence) keyword (take 3 tops)])"

definition clozeCards :: "string list \<Rightarrow> string list \<Rightarrow> AiFlashcardResult list" where
  "clozeCards sentences tops = concat (map (clozeOf tops) sentences)"

definition includesStr :: "string \<Rightarrow> string \<Rightarrow> bool" where
  \<comment> \<open>\<open>s.includes(sub)\<close>\<close>
  "includesStr s sub = list_ex (\<lambda>i. take (length sub) (drop i s) = sub) [0..<length s + 1]"

definition termDefOf :: "string list \<Rightarrow> string \<Rightarrow> AiFlashcardResult list" where
  \<comment> \<open>one round of the topic loop; an empty \<open>related\<close> is falsy\<close>
  "termDefOf kps topic =
     (case find (\<lambda>kp. includesStr (toLowerCase kp) (toLowerCase topic)) kps of
        None \<Rightarrow> []
      | Some related \<Rightarrow>
          if related = [] then []
          else [draft TermDef (''Define: '' @ topic) related [topic],
                draft DefTerm related topic [topic]])"

definition termDefCards :: "string list \<Rightarrow> string list \<Rightarrow> AiFlashcardResult list" where
  "termDefCards kps tops = concat (map (termDefOf kps) tops)"

definition actionItemCard :: "ActionItem \<Rightarrow> AiFlashcardResult" where
  "actionItemCard item =
     draft Qa (''What action item was assigned to '' @ owner item @ ''?'')
       (task item @ (case due item of
                       None \<Rightarrow> []
                     | Some d \<Rightarrow> if d = [] then [] else '' (due: '' @ d @ '')''))
       [''action-item'']"

text \<open>The final \<open>filter\<close> with its set \<open>seen\<close>; it reads the front only, so it serves
  drafts and full cards alike.\<close>

definition frontKey :: "'a AiFlashcardResult_scheme \<Rightarrow> string" where
  \<comment> \<open>\<open>card.front.toLowerCase().trim()\<close>\<close>
  "frontKey c = trim (toLowerCase (front c))"

fun dedupe :: "string list \<Rightarrow> 'a AiFlashcardResult_scheme list \<Rightarrow> 'a AiFlashcardResult_scheme list"
  where
  "dedupe seen [] = []"
| "dedupe seen (c # cs) =
     (if frontKey c \<in> set seen then dedupe seen cs else c # dedupe (frontKey c # seen) cs)"

text \<open>The cards of \<open>generateFlashcards\<close> in flashcardGenerator.ts before the final filter.
  The cloze and the term cards are cut to ten after their \<open>makeCard\<close> calls.\<close>

definition allCards ::
  "(nat \<Rightarrow> string) \<Rightarrow> (nat \<Rightarrow> int) \<Rightarrow> string \<Rightarrow> 'a AiSummaryResult_scheme \<Rightarrow> Flashcard list"
  where
  "allCards ids clock nid summary =
     (let qa = generateQACards (keyPoints summary) (topics summary);
          cl = clozeCards (highlights summary @ keyPoints summary) (topics summary);
          td = termDefCards (keyPoints summary) (topics summary);
          ai = map actionItemCard (actionItems summary);
          k1 = length qa; k2 = k1 + length cl; k3 = k2 + length td
      in makeCards ids clock nid 0 qa
         @ take 10 (makeCards ids clock nid k1 cl)
         @ take 10 (makeCards ids clock nid k2 td)
         @ makeCards ids clock nid k3 ai)"

definition generateFlashcards ::
  "(nat \<Rightarrow> string) \<Rightarrow> (nat \<Rightarrow> int) \<Rightarrow> string \<Rightarrow> 'a AiSummaryResult_scheme \<Rightarrow> NoteSegment list
     \<Rightarrow> Flashcard list" where
  "generateFlashcards ids clock nid summary segments = dedupe [] (allCards ids clock nid summary)"

text \<open>\<open>OfflineProvider.generateFlashcards\<close>: every key point is put as a question, nothing
  is cut to ten, and without a summary the topics come from the transcript.\<close>

definition allCards_offline :: "string \<Rightarrow> AiSummaryResult option \<Rightarrow> AiFlashcardResult list" where
  "allCards_offline transcript summary =
     (let tops = (case summary of None \<Rightarrow> extractTopics transcript | Some s \<Rightarrow> topics s);
          kps = (case summary of None \<Rightarrow> [] | Some s \<Rightarrow> keyPoints s);
          hls = (case summary of None \<Rightarrow> [] | Some s \<Rightarrow> highlights s)
      in map (\<lambda>point. draft Qa (keyPointQuestion point) point (take 3 tops)) kps
         @ clozeCards (hls @ kps) tops
         @ termDefCards kps tops
         @ (case summary of None \<Rightarrow> [] | Some s \<Rightarrow> map actionItemCard (actionItems s)))"

definition generateFlashcards_offline ::
  "string \<Rightarrow> AiSummaryResult option \<Rightarrow> AiFlashcardResult list" where
  "generateFlashcards_offline transcript summary = dedupe [] (allCards_offline transcript summary)"

section \<open>Reference definitions for the properties\<close>

text \<open>A token is counted as a sentiment word when it reaches one of the two lexicon
  branches of the loop, that is, when it is in a lexicon and is not a negation word.\<close>

definition isSentimentWord :: "string \<Rightarrow> bool" where
  "isSentimentWord w =
     (w \<notin> set NEGATION_WORDS \<and> (w \<in> set POSITIVE_WORDS \<or> w \<in> set NEGATIVE_WORDS))"

text \<open>What the token at position \<open>i\<close> adds to the score, read off its predecessor alone:
  the sign is flipped exactly when the token before it is a negation word.\<close>

definition contribution :: "string list \<Rightarrow> nat \<Rightarrow> int" where
  "contribution ws i =
     (let w = ws ! i;
          flipped = (0 < i \<and> ws ! (i - 1) \<in> set NEGATION_WORDS)
      in if w \<in> set NEGATION_WORDS then 0
         else if w \<in> set POSITIVE_WORDS then (if flipped then - 1 else 1)
         else if w \<in> set NEGATIVE_WORDS then (if flipped then 1 else - 1)
         else 0)"

definition noDraws :: "nat \<Rightarrow> nat" where
  \<comment> \<open>a run in which every draw of \<open>Math.random\<close> gives the first starter\<close>
  "noDraws k = 0"

definition passedCard :: "int \<Rightarrow> int \<Rightarrow> Flashcard" where
  \<comment> \<open>a card with the easiness 2.8 after \<open>reps\<close> passes, with the given interval\<close>
  "passedCard ival reps =
     \<lparr>ctype = Qa, front = ''Question?'', back_side = ''Answer.'', tags = [],
      card_id = ''card-1'', noteId = ''note-1'', difficulty = 2, interval = ival,
      repetitions = reps, easiness = toDouble (28 / 10), nextReviewAt = 0, createdAt = 0,
      updatedAt = 0\<rparr>"

text \<open>The ranked branch of \<open>textRank\<close>: the indices in the order of the sort.\<close>

definition rankedIndices :: "string list \<Rightarrow> nat list" where
  "rankedIndices sentences =
     (let n = length sentences;
          matrix = similarityMatrix (map wordFrequency (map tokenize sentences));
          scores = rankIterate 50 matrix (replicate n (1 / real n))
      in map snd (sort_key (\<lambda>x. - fst x) (zip scores [0..<n])))"

text \<open>A chunk is within the limit or it is one sentence that is longer than the limit.\<close>

definition fits :: "int \<Rightarrow> string set \<Rightarrow> string \<Rightarrow> bool" where
  "fits maxChars S c =
     (int (length c) \<le> maxChars \<or> (\<exists>s\<in>S. maxChars < int (length s) \<and> c = trim s))"

text \<open>The value of \<open>current\<close> after the sentences of one group were added to an empty
  \<open>current\<close>, each by \<open>current += (current ? " " : "") + sentence\<close>.\<close>

definition glue :: "string list \<Rightarrow> string" where
  "glue g = foldl (\<lambda>current s. current @ (if current \<noteq> [] then '' '' else []) @ s) [] g"

definition sampleSummary :: AiSummaryResult where
  \<comment> \<open>a key point without a capital is its own question, and the front of the
      definition card of its topic as well\<close>
  "sampleSummary =
     \<lparr>tldr = [], keyPoints = [''revenue grew by 15% last quarter.''], decisions = [],
      actionItems = [], openQuestions = [], topics = [''Revenue''], highlights = [],
      followUps = [], sentimentBySegment = []\<rparr>"

definition caseSummary :: AiSummaryResult where
  \<comment> \<open>two key points that differ in case and in a space at the end\<close>
  "caseSummary =
     \<lparr>tldr = [], keyPoints = [''Budget'', ''BUDGET ''], decisions = [],
      actionItems = [], openQuestions = [], topics = [], highlights = [],
      followUps = [], sentimentBySegment = []\<rparr>"

definition sampleIds :: "nat \<Rightarrow> string" where
  "sampleIds k = ''card-'' @ replicate k CHR ''i''"

definition sampleClock :: "nat \<Rightarrow> int" where
  "sampleClock k = 1700000000000 + int k"

definition scenario :: string where
  \<comment> \<open>the transcript of the end-to-end scenario\<close>
  "scenario = ''Revenue grew by 15% last quarter. We decided to move forward with the new platform. Alice will prepare the Q2 budget report by Friday. When will the new hire start?''"

section \<open>Character classes on the bits of a character\<close>

text \<open>
  The classes and the case mappings are defined on the code of a character. For
  evaluation they are restated on its eight bits, least significant first; these
  equations are the ones a concrete text is evaluated with.
\<close>

lemma toLowerChar_bits [code]:
  "toLowerChar (Char b0 b1 b2 b3 b4 b5 b6 b7) =
     (if b6 \<and> \<not> b5
         \<and> (if b7 then \<not> (b0 \<and> b1 \<and> b2 \<and> b3 \<and> b4) \<and> \<not> (b0 \<and> b1 \<and> b2 \<and> \<not> b3 \<and> b4)
             else (b0 \<or> b1 \<or> b2 \<or> b3 \<or> b4) \<and> \<not> (b3 \<and> b4 \<and> (b2 \<or> (b0 \<and> b1))))
      then Char b0 b1 b2 b3 b4 True b6 b7
      else Char b0 b1 b2 b3 b4 b5 b6 b7)"
  by (cases b0; cases b1; cases b2; cases b3; cases b4; cases b5; cases b6; cases b7;
      simp add: toLowerChar_def char_of_def bit_Suc_0_iff)

lemma toUpperChar_bits [code]:
  "toUpperChar (Char b0 b1 b2 b3 b4 b5 b6 b7) =
     (if b6 \<and> b5
         \<and> (if b7 then \<not> (b0 \<and> b1 \<and> b2 \<and> b3 \<and> b4) \<and> \<not> (b0 \<and> b1 \<and> b2 \<and> \<not> b3 \<and> b4)
             else (b0 \<or> b1 \<or> b2 \<or> b3 \<or> b4) \<and> \<not> (b3 \<and> b4 \<and> (b2 \<or> (b0 \<and> b1))))
      then Char b0 b1 b2 b3 b4 False b6 b7
      else Char b0 b1 b2 b3 b4 b5 b6 b7)"
  by (cases b0; cases b1; cases b2; cases b3; cases b4; cases b5; cases b6; cases b7;
      simp add: toUpperChar_def char_of_def bit_Suc_0_iff)

lemma isSpace_bits [code]:
  "isSpace (Char b0 b1 b2 b3 b4 b5 b6 b7) =
     ((\<not> b7 \<and> \<not> b6 \<and> \<not> b5 \<and> \<not> b4 \<and> b3 \<and> \<not> (b2 \<and> b1) \<and> (b0 \<or> b1 \<or> b2))
      \<or> (\<not> b6 \<and> b5 \<and> \<not> b4 \<and> \<not> b3 \<and> \<not> b2 \<and> \<not> b1 \<and> \<not> b0))"
  by (cases b0; cases b1; cases b2; cases b3; cases b4; cases b5; cases b6; cases b7;
      simp add: isSpace_def)

lemma isWordChar_bits [code]:
  "isWordChar (Char b0 b1 b2 b3 b4 b5 b6 b7) =
     (\<not> b7
      \<and> ((b6 \<and> (b0 \<or> b1 \<or> b2 \<or> b3 \<or> b4) \<and> \<not> (b3 \<and> b4 \<and> (b2 \<or> (b0 \<and> b1))))
         \<or> (\<not> b6 \<and> b5 \<and> b4 \<and> \<not> (b3 \<and> (b2 \<or> b1)))
         \<or> (b6 \<and> \<not> b5 \<and> b4 \<and> b3 \<and> b2 \<and> b1 \<and> b0)))"
  by (cases b0; cases b1; cases b2; cases b3; cases b4; cases b5; cases b6; cases b7;
      simp add: isWordChar_def)

lemma isDigit_bits [code]:
  "isDigit (Char b0 b1 b2 b3 b4 b5 b6 b7) =
     (\<not> b7 \<and> \<not> b6 \<and> b5 \<and> b4 \<and> \<not> (b3 \<and> (b2 \<or> b1)))"
  by (cases b0; cases b1; cases b2; cases b3; cases b4; cases b5; cases b6; cases b7;
      simp add: isDigit_def)

lemma isLineTerminator_bits [code]:
  "isLineTerminator (Char b0 b1 b2 b3 b4 b5 b6 b7) =
     (\<not> b7 \<and> \<not> b6 \<and> \<not> b5 \<and> \<not> b4 \<and> b3 \<and> (b2 \<noteq> b1) \<and> (b0 = b2))"
  by (cases b0; cases b1; cases b2; cases b3; cases b4; cases b5; cases b6; cases b7;
      simp add: isLineTerminator_def)

lemma isStop_bits [code]:
  "isStop (Char b0 b1 b2 b3 b4 b5 b6 b7) =
     (\<not> b7 \<and> \<not> b6 \<and> b5
      \<and> ((\<not> b4 \<and> b3 \<and> b2 \<and> b1 \<and> \<not> b0)
         \<or> (\<not> b4 \<and> \<not> b3 \<and> \<not> b2 \<and> \<not> b1 \<and> b0)
         \<or> (b4 \<and> b3 \<and> b2 \<and> b1 \<and> b0)))"
  by (cases b0; cases b1; cases b2; cases b3; cases b4; cases b5; cases b6; cases b7;
      simp add: isStop_def)

section \<open>Properties of the sentiment scorer\<close>

lemma scanWords_Nil [simp]: "scanWords st [] = st"
  by (simp add: scanWords_def)

lemma scanWords_Cons [simp]: "scanWords st (w # ws) = scanWords (scanWord st w) ws"
  by (simp add: scanWords_def)

lemma scanWords_snoc [simp]: "scanWords st (ws @ [w]) = scanWord (scanWords st ws) w"
  by (simp add: scanWords_def)

lemma negated_scanWord: "negated (scanWord st w) = (w \<in> set NEGATION_WORDS)"
  by (simp add: scanWord_def)

lemma score_scanWord:
  "score (scanWord st w) = score st +
     (if w \<in> set NEGATION_WORDS then 0
      else if w \<in> set POSITIVE_WORDS then (if negated st then - 1 else 1)
      else if w \<in> set NEGATIVE_WORDS then (if negated st then 1 else - 1)
      else 0)"
  by (simp add: scanWord_def)

lemma wordCount_scanWord:
  "wordCount (scanWord st w) = wordCount st + (if isSentimentWord w then 1 else 0)"
  by (simp add: scanWord_def isSentimentWord_def)

lemma negated_scanWords:
  "negated (scanWords initialScan ws) = (ws \<noteq> [] \<and> last ws \<in> set NEGATION_WORDS)"
  by (induction ws rule: rev_induct) (simp_all add: initialScan_def negated_scanWord)

lemma contribution_append:
  "i < length ws \<Longrightarrow> contribution (ws @ [w]) i = contribution ws i"
  by (cases i) (simp_all add: contribution_def nth_append)

lemma contribution_last:
  "contribution (ws @ [w]) (length ws) =
     (if w \<in> set NEGATION_WORDS then 0
      else if w \<in> set POSITIVE_WORDS
        then (if negated (scanWords initialScan ws) then - 1 else 1)
      else if w \<in> set NEGATIVE_WORDS
        then (if negated (scanWords initialScan ws) then 1 else - 1)
      else 0)"
  by (cases ws rule: rev_cases)
     (simp_all add: contribution_def initialScan_def negated_scanWord nth_append)

lemma score_scanWords:
  "score (scanWords initialScan ws) = (\<Sum>i<length ws. contribution ws i)"
proof (induction ws rule: rev_induct)
  case Nil
  show ?case by (simp add: initialScan_def)
next
  case (snoc w ws)
  have "(\<Sum>i<length ws. contribution (ws @ [w]) i) = (\<Sum>i<length ws. contribution ws i)"
    by (rule sum.cong) (simp_all add: contribution_append)
  with snoc show ?case
    by (simp add: score_scanWord contribution_last)
qed

lemma wordCount_scanWords:
  "wordCount (scanWords st ws) = wordCount st + length (filter isSentimentWord ws)"
  by (induction ws rule: rev_induct) (simp_all add: wordCount_scanWord)

lemma score_bound_scanWord:
  "\<bar>score st\<bar> \<le> int (wordCount st)
   \<Longrightarrow> \<bar>score (scanWord st w)\<bar> \<le> int (wordCount (scanWord st w))"
  by (auto simp: scanWord_def)

lemma score_bound_scanWords:
  "\<bar>score st\<bar> \<le> int (wordCount st)
   \<Longrightarrow> \<bar>score (scanWords st ws)\<bar> \<le> int (wordCount (scanWords st ws))"
  by (induction ws rule: rev_induct) (simp_all add: score_bound_scanWord)

lemma wordCount_initial:
  "wordCount (scanWords initialScan ws) = length (filter isSentimentWord ws)"
  by (simp add: wordCount_scanWords initialScan_def)

lemma toLowerChar_idem: "toLowerChar (toLowerChar c) = toLowerChar c"
proof -
  have "(of_char (toLowerChar c) :: nat) =
      (let n = of_char c in
       if (65 \<le> n \<and> n \<le> 90) \<or> (192 \<le> n \<and> n \<le> 222 \<and> n \<noteq> 215) then n + 32 else n)" for c
    by (simp add: toLowerChar_def Let_def)
  then have "(of_char (toLowerChar (toLowerChar c)) :: nat) = of_char (toLowerChar c)"
    by (simp add: Let_def)
  then show ?thesis by (simp only: of_char_eq_iff)
qed

lemma toLowerCase_idem: "toLowerCase (toLowerCase t) = toLowerCase t"
  by (simp add: toLowerCase_def toLowerChar_idem)

lemma sentimentWords_toLowerCase: "sentimentWords (toLowerCase t) = sentimentWords t"
  by (simp add: sentimentWords_def toLowerCase_idem)

lemma analyzeSentiment_toLowerCase: "analyzeSentiment (toLowerCase t) = analyzeSentiment t"
  by (simp add: analyzeSentiment_def sentimentWords_toLowerCase)

lemma analyzeSentiment_no_words:
  assumes "\<forall>w\<in>set (sentimentWords t). \<not> isSentimentWord w"
  shows "analyzeSentiment t = 0"
proof -
  from assms have "filter isSentimentWord (sentimentWords t) = []"
    by (simp add: filter_empty_conv)
  then show ?thesis
    by (simp add: analyzeSentiment_def wordCount_initial)
qed

lemma scanWord_never: "scanWord st ''never'' = st\<lparr>negated := True\<rparr>"
proof -
  have "''never'' \<in> set NEGATION_WORDS" by code_simp
  then show ?thesis by (simp add: scanWord_def)
qed

lemma scanWord_not: "scanWord st ''not'' = st\<lparr>negated := True\<rparr>"
proof -
  have "''not'' \<in> set NEGATION_WORDS" by code_simp
  then show ?thesis by (simp add: scanWord_def)
qed

text \<open>
  Claim C8. For every text the score lies between \<open>-1\<close> and \<open>1\<close>; it is \<open>0\<close> when no
  token of the text is a sentiment word, and for the empty text; and case does not
  matter: a text and its lower-case form have the same score, so \<open>GREAT\<close> scores as
  \<open>great\<close> does. The bounds do not rest on the final clamp alone: over every list of
  tokens the sum is within the count of the sentiment words, and that count is zero
  exactly when no token is a sentiment word.
\<close>

theorem analyzeSentiment_range_zero_case:
  "- 1 \<le> analyzeSentiment t \<and> analyzeSentiment t \<le> 1
   \<and> ((\<forall>w\<in>set (sentimentWords t). \<not> isSentimentWord w) \<longrightarrow> analyzeSentiment t = 0)
   \<and> analyzeSentiment [] = 0
   \<and> analyzeSentiment (toLowerCase t) = analyzeSentiment t
   \<and> analyzeSentiment ''GREAT'' = analyzeSentiment ''great''
   \<and> \<bar>score (scanWords initialScan ws)\<bar> \<le> int (wordCount (scanWords initialScan ws))
   \<and> wordCount (scanWords initialScan ws) = length (filter isSentimentWord ws)"
proof -
  have "- 1 \<le> analyzeSentiment t \<and> analyzeSentiment t \<le> 1"
    by (simp add: analyzeSentiment_def Let_def)
  moreover have "\<bar>score (scanWords initialScan ws)\<bar> \<le> int (wordCount (scanWords initialScan ws))"
    by (rule score_bound_scanWords) (simp add: initialScan_def)
  moreover have "analyzeSentiment [] = 0"
    by code_simp
  moreover have "analyzeSentiment ''GREAT'' = analyzeSentiment ''great''"
    by code_simp
  ultimately show ?thesis
    using analyzeSentiment_no_words [of t] analyzeSentiment_toLowerCase [of t]
      wordCount_initial [of ws]
    by blast
qed

theorem analyzeSentiment_range_zero_case_witness:
  "list_all (\<lambda>w. \<not> isSentimentWord w) (sentimentWords ''The meeting is never at 3pm'')
   \<and> analyzeSentiment ''The meeting is never at 3pm'' = 0
   \<and> - 1 \<le> analyzeSentiment ''The meeting is never at 3pm''"
proof -
  have "\<forall>w\<in>set (sentimentWords ''The meeting is never at 3pm''). \<not> isSentimentWord w"
    by code_simp
  with analyzeSentiment_range_zero_case [of "''The meeting is never at 3pm''"]
  show ?thesis by (simp add: list_all_iff)
qed

text \<open>
  Claim C4, as amended. A negation word adds nothing to the score and sets the flag; every
  other token clears it, so the flag is set exactly when the last token read is a
  negation word. A positive-lexicon token adds \<open>-1\<close> instead of \<open>+1\<close>, and a
  negative-lexicon token that is not itself a negation word adds \<open>+1\<close> instead of \<open>-1\<close>,
  exactly when the token just before it is a negation word: the score is the sum of
  these contributions over the number of sentiment words. Hence \<open>not good\<close> scores
  below zero and \<open>not bad\<close> above.
\<close>

theorem negation_flips_next_word_only:
  "analyzeSentiment t =
     (let ws = sentimentWords t; n = length (filter isSentimentWord ws)
      in if n = 0 then 0
         else max (- 1) (min 1 (of_int (\<Sum>i<length ws. contribution ws i) / of_nat n)))
   \<and> negated (scanWords initialScan ws) = (ws \<noteq> [] \<and> last ws \<in> set NEGATION_WORDS)
   \<and> analyzeSentiment ''not good'' < 0
   \<and> analyzeSentiment ''not bad'' > 0"
proof -
  have "analyzeSentiment ''not good'' < 0"
    by code_simp
  moreover have "analyzeSentiment ''not bad'' > 0"
    by code_simp
  moreover have "analyzeSentiment t =
     (let ws = sentimentWords t; n = length (filter isSentimentWord ws)
      in if n = 0 then 0
         else max (- 1) (min 1 (of_int (\<Sum>i<length ws. contribution ws i) / of_nat n)))"
  proof -
    have m: "max (length xs) (Suc 0) = length xs" if "xs \<noteq> []" for xs :: "string list"
      using that by (cases xs) simp_all
    show ?thesis
      by (simp add: analyzeSentiment_def Let_def wordCount_initial score_scanWords m)
  qed
  ultimately show ?thesis
    using negated_scanWords [of ws] by blast
qed

text \<open>
  Claim C4 as it is written fails on the token \<open>never\<close>, which is in the negative
  lexicon: after the negation word \<open>not\<close> it adds nothing, where the claim has it add
  \<open>+1\<close>, and on its own it adds nothing, where the claim has it add \<open>-1\<close>.
\<close>

theorem never_after_not_counterexample:
  "''never'' \<in> set NEGATIVE_WORDS
   \<and> ''not'' \<in> set NEGATION_WORDS
   \<and> sentimentWords ''not never'' = [''not'', ''never'']
   \<and> score (scanWords initialScan [''not'', ''never'']) = 0
   \<and> wordCount (scanWords initialScan [''not'', ''never'']) = 0
   \<and> analyzeSentiment ''not never'' = 0
   \<and> score (scanWords initialScan [''never'']) = 0"
  by code_simp

text \<open>
  Claim C10. The token \<open>never\<close> is in the negative lexicon and in the negation set; the
  loop tests the negation set first, so \<open>never\<close> only sets the flag, in every state, and
  a text scores the same with every \<open>never\<close> replaced by \<open>not\<close>. So \<open>never\<close> alone
  scores \<open>0\<close>, and in \<open>never bad\<close> the word \<open>bad\<close> adds \<open>+1\<close>.
\<close>

theorem never_is_negation_only:
  "''never'' \<in> set NEGATIVE_WORDS
   \<and> ''never'' \<in> set NEGATION_WORDS
   \<and> scanWord st ''never'' = st\<lparr>negated := True\<rparr>
   \<and> scanWords st (map (\<lambda>w. if w = ''never'' then ''not'' else w) ws) = scanWords st ws
   \<and> analyzeSentiment ''never'' = 0
   \<and> score (scanWords initialScan (sentimentWords ''never bad'')) = 1
   \<and> analyzeSentiment ''never bad'' = 1"
proof -
  have "scanWords st (map (\<lambda>w. if w = ''never'' then ''not'' else w) ws) = scanWords st ws"
    by (induction ws arbitrary: st) (simp_all add: scanWord_never scanWord_not)
  moreover have "''never'' \<in> set NEGATIVE_WORDS \<and> ''never'' \<in> set NEGATION_WORDS"
    by code_simp
  moreover have "analyzeSentiment ''never'' = 0"
    by code_simp
  moreover have "score (scanWords initialScan (sentimentWords ''never bad'')) = 1"
    by code_simp
  moreover have "analyzeSentiment ''never bad'' = 1"
    by code_simp
  ultimately show ?thesis
    using scanWord_never [of st] by blast
qed

section \<open>Properties of the rounding to a double\<close>

lemma ilog2_bounds:
  assumes "0 < x"
  shows "2 powi (ilog2 x) \<le> x \<and> x < 2 powi (ilog2 x + 1)"
proof (cases "1 \<le> x")
  case True
  let ?n = "\<lfloor>x\<rfloor>"
  let ?b = "bitlen ?n"
  from True have n: "0 < ?n" by simp
  from bitlen_bounds [OF n] have b: "2 ^ nat (?b - 1) \<le> ?n" "?n < 2 ^ nat ?b"
    by simp_all
  from n have b1: "1 \<le> ?b"
    by (simp add: bitlen_alt_def)
  have "(2::rat) ^ nat (?b - 1) \<le> of_int ?n"
    using b(1) by (metis of_int_le_iff of_int_numeral of_int_power)
  also have "\<dots> \<le> x" by simp
  finally have lo: "(2::rat) ^ nat (?b - 1) \<le> x" .
  have "?n + 1 \<le> 2 ^ nat ?b" using b(2) by simp
  then have "of_int (?n + 1) \<le> (2::rat) ^ nat ?b"
    by (metis of_int_le_iff of_int_numeral of_int_power)
  moreover have "x < of_int (?n + 1)" by linarith
  ultimately have hi: "x < (2::rat) ^ nat ?b" by simp
  from True have il: "ilog2 x = ?b - 1" by (simp add: ilog2_def)
  show ?thesis
    using lo hi b1 by (simp add: il power_int_def)
next
  case False
  with assms have x1: "x < 1" by simp
  let ?y = "1 / x"
  let ?n = "\<lceil>?y\<rceil>"
  let ?j = "bitlen (?n - 1)"
  from assms x1 have y1: "1 < ?y" by simp
  then have n2: "2 \<le> ?n" by linarith
  then have n1: "0 < ?n - 1" by simp
  from bitlen_bounds [OF n1] have b: "2 ^ nat (?j - 1) \<le> ?n - 1" "?n - 1 < 2 ^ nat ?j"
    by simp_all
  from n1 have j1: "1 \<le> ?j"
    by (simp add: bitlen_alt_def)
  have "?n \<le> 2 ^ nat ?j" using b(2) by simp
  then have "of_int ?n \<le> (2::rat) ^ nat ?j"
    by (metis of_int_le_iff of_int_numeral of_int_power)
  moreover have "?y \<le> of_int ?n" by simp
  ultimately have yhi: "?y \<le> (2::rat) ^ nat ?j" by linarith
  have "(2::rat) ^ nat (?j - 1) \<le> of_int (?n - 1)"
    using b(1) by (metis of_int_le_iff of_int_numeral of_int_power)
  moreover have "of_int (?n - 1) < ?y" by linarith
  ultimately have ylo: "(2::rat) ^ nat (?j - 1) < ?y" by linarith
  from False have il: "ilog2 x = - ?j" by (simp add: ilog2_def)
  have p: "(0::rat) < 2 ^ nat ?j" "(0::rat) < 2 ^ nat (?j - 1)" by simp_all
  have lo: "1 / (2::rat) ^ nat ?j \<le> x"
    using yhi assms p by (simp add: field_simps)
  have hi: "x < 1 / (2::rat) ^ nat (?j - 1)"
    using ylo assms p by (simp add: field_simps)
  show ?thesis
    using lo hi j1 by (auto simp add: il power_int_def field_simps nat_diff_distrib)
qed

lemma roundEven_floor: "\<lfloor>y\<rfloor> \<le> roundEven y"
  by (simp add: roundEven_def Let_def)

lemma roundEven_of_int: "roundEven (of_int k) = k"
  by (simp add: roundEven_def Let_def)

lemma significand_bounds:
  fixes x :: rat
  assumes "0 < x"
  shows "2 ^ 52 \<le> x / 2 powi (ilog2 x - 52) \<and> x / 2 powi (ilog2 x - 52) < 2 ^ 53"
proof -
  let ?e = "ilog2 x - 52"
  have p: "(0::rat) < 2 powi ?e" by simp
  have a: "(2::rat) powi (ilog2 x) = 2 powi ?e * 2 ^ 52"
    using power_int_add [of "2::rat" ?e 52] by simp
  have b: "(2::rat) powi (ilog2 x + 1) = 2 powi ?e * 2 ^ 53"
    using power_int_add [of "2::rat" ?e 53] by (simp add: add.commute)
  from ilog2_bounds [OF assms] have "2 powi ?e * 2 ^ 52 \<le> x" "x < 2 powi ?e * 2 ^ 53"
    unfolding a b by simp_all
  with p show ?thesis
    by (simp add: field_simps)
qed

lemma scaled_int:
  fixes m :: int
  assumes "e \<le> f"
  shows "of_int m * 2 powi f / 2 powi e = (of_int (m * 2 ^ nat (f - e)) :: rat)"
proof -
  have "(2::rat) powi f = 2 powi e * 2 powi (f - e)"
    using power_int_add [of "2::rat" e "f - e"] by simp
  moreover have "(2::rat) powi (f - e) = 2 ^ nat (f - e)"
    using assms by (simp add: power_int_def)
  ultimately show ?thesis by simp
qed

lemma scaled_small:
  fixes m :: int
  assumes "f < e" and "0 < m" and "m < 2 ^ 53"
  shows "of_int m * 2 powi f / 2 powi e < (2 ^ 52 :: rat)"
proof -
  have "(2::rat) powi e = 2 powi f * 2 powi (e - f)"
    using power_int_add [of "2::rat" f "e - f"] by simp
  moreover have "(2::rat) powi (e - f) = 2 ^ nat (e - f)"
    using assms by (simp add: power_int_def)
  ultimately have q: "of_int m * 2 powi f / 2 powi e = of_int m / (2 ^ nat (e - f) :: rat)"
    by simp
  from assms have "1 \<le> nat (e - f)" by simp
  then have "(2::rat) ^ 1 \<le> 2 ^ nat (e - f)"
    by (rule power_increasing) simp
  then have "of_int m / (2 ^ nat (e - f) :: rat) \<le> of_int m / 2 ^ 1"
    using assms(2) by (intro divide_left_mono) simp_all
  then have a: "of_int m / (2 ^ nat (e - f) :: rat) \<le> of_int m / 2"
    by (simp only: power_one_right)
  have "(of_int m :: rat) < 2 ^ 53"
    using assms(3) by (metis of_int_less_iff of_int_numeral of_int_power)
  then have b: "(of_int m :: rat) / 2 < 2 ^ 52"
    by simp
  from a b show ?thesis
    unfolding q by (rule le_less_trans)
qed

lemma toDouble_pos:
  assumes "0 < x"
  shows "toDouble x = of_int (roundEven (x / 2 powi (ilog2 x - 52))) * 2 powi (ilog2 x - 52)"
  using assms by (simp add: toDouble_def Let_def)

lemma toDouble_ge:
  fixes m :: int
  assumes m: "0 < m" "m < 2 ^ 53" and le: "of_int m * 2 powi f \<le> x"
  shows "of_int m * 2 powi f \<le> toDouble x"
proof -
  let ?e = "ilog2 x - 52"
  let ?y = "x / 2 powi ?e"
  let ?r = "roundEven ?y"
  have p: "(0::rat) < 2 powi ?e" "(0::rat) < 2 powi f" by simp_all
  from m(1) p(2) have "(0::rat) < of_int m * 2 powi f" by simp
  with le have x: "0 < x" by simp
  from significand_bounds [OF x] have y: "2 ^ 52 \<le> ?y" by simp
  have fl: "(2 ^ 52 :: int) \<le> \<lfloor>?y\<rfloor>"
    using y by (simp add: le_floor_iff)
  have q: "of_int m * 2 powi f / 2 powi ?e \<le> ?y"
    using le p(1) by (simp add: divide_right_mono)
  have "of_int m * 2 powi f / 2 powi ?e \<le> (of_int ?r :: rat)"
  proof (cases "?e \<le> f")
    case True
    from q have "of_int (m * 2 ^ nat (f - ?e)) \<le> ?y"
      unfolding scaled_int [OF True] .
    then have "m * 2 ^ nat (f - ?e) \<le> \<lfloor>?y\<rfloor>"
      by (simp only: le_floor_iff)
    also have "\<dots> \<le> ?r" by (rule roundEven_floor)
    finally have "(of_int (m * 2 ^ nat (f - ?e)) :: rat) \<le> of_int ?r"
      by (simp only: of_int_le_iff)
    then show ?thesis
      unfolding scaled_int [OF True] .
  next
    case False
    then have "f < ?e" by simp
    from scaled_small [OF this m] have "of_int m * 2 powi f / 2 powi ?e < (2 ^ 52 :: rat)" .
    moreover have "(2 ^ 52 :: int) \<le> ?r"
      using fl roundEven_floor [of ?y] by linarith
    then have "(of_int (2 ^ 52) :: rat) \<le> of_int ?r"
      by (simp only: of_int_le_iff)
    then have "(2 ^ 52 :: rat) \<le> of_int ?r" by simp
    ultimately show ?thesis by linarith
  qed
  then have "of_int m * 2 powi f \<le> (of_int ?r * 2 powi ?e :: rat)"
    using p(1) by (simp add: field_simps)
  then show ?thesis
    unfolding toDouble_pos [OF x] .
qed

lemma toDouble_exact_pos:
  fixes m :: int
  assumes m: "0 < m" "m < 2 ^ 53"
  shows "toDouble (of_int m * 2 powi f) = of_int m * 2 powi f"
proof -
  let ?x = "of_int m * 2 powi f :: rat"
  let ?e = "ilog2 ?x - 52"
  have p: "(0::rat) < 2 powi ?e" "(0::rat) < 2 powi f" by simp_all
  from m(1) p(2) have x: "0 < ?x" by simp
  from significand_bounds [OF x] have y: "2 ^ 52 \<le> ?x / 2 powi ?e" by simp
  have ef: "?e \<le> f"
  proof (rule ccontr)
    assume "\<not> ?e \<le> f"
    then have "f < ?e" by simp
    from scaled_small [OF this m] y show False by simp
  qed
  have "toDouble ?x = of_int (roundEven (?x / 2 powi ?e)) * 2 powi ?e"
    by (rule toDouble_pos [OF x])
  also have "\<dots> = of_int (m * 2 ^ nat (f - ?e)) * 2 powi ?e"
    unfolding scaled_int [OF ef] roundEven_of_int ..
  also have "\<dots> = ?x / 2 powi ?e * 2 powi ?e"
    unfolding scaled_int [OF ef] ..
  also have "\<dots> = ?x" using p(1) by simp
  finally show ?thesis .
qed

lemma toDouble_minus: "toDouble (- x) = - toDouble x"
  by (simp add: toDouble_def Let_def)

lemma toDouble_exact:
  fixes m :: int
  assumes "\<bar>m\<bar> < 2 ^ 53"
  shows "toDouble (of_int m * 2 powi f) = of_int m * 2 powi f"
proof -
  consider "m = 0" | "0 < m" | "m < 0" by linarith
  then show ?thesis
  proof cases
    case 1
    then show ?thesis by (simp add: toDouble_def)
  next
    case 2
    with assms show ?thesis by (simp add: toDouble_exact_pos)
  next
    case 3
    with assms have "0 < - m" "- m < 2 ^ 53" by simp_all
    from toDouble_exact_pos [OF this, of f] have "toDouble (- (of_int m * 2 powi f)) = - (of_int m * 2 powi f)"
      by simp
    then show ?thesis
      by (simp add: toDouble_minus)
  qed
qed

lemma toDouble_of_int:
  assumes "\<bar>n\<bar> \<le> 2 ^ 53"
  shows "toDouble (of_int n) = of_int n"
proof (cases "\<bar>n\<bar> < 2 ^ 53")
  case True
  from toDouble_exact [OF True, of 0] show ?thesis by simp
next
  case False
  with assms have "n = 2 ^ 53 \<or> n = - (2 ^ 53)" by linarith
  moreover have "toDouble (2 ^ 53) = 2 ^ 53"
    using toDouble_exact [of 1 53] by simp
  ultimately show ?thesis
    by (auto simp add: toDouble_minus)
qed

section \<open>Properties of the scheduler\<close>

lemma min_easiness_value: "toDouble (13 / 10) = of_int 5854679515581645 * 2 powi (- 52)"
  by code_simp

lemma two_powi_m52: "(2::rat) powi (- 52) = 1 / 4503599627370496"
  by (simp add: power_int_def power_divide)

lemma min_easiness_ge: "13 / 10 \<le> toDouble (13 / 10)"
  unfolding min_easiness_value two_powi_m52 by simp

lemma round2_at_least:
  fixes e :: rat
  assumes "toDouble (13 / 10) \<le> e"
  shows "toDouble (13 / 10) \<le> toDouble (of_int (round (toDouble (e * 100))) / 100)"
proof -
  let ?n = "round (toDouble (e * 100))"
  from assms min_easiness_ge have "13 / 10 \<le> e" by (rule order_trans [rotated])
  then have "of_int 130 * 2 powi 0 \<le> e * 100" by simp
  then have "of_int 130 * 2 powi 0 \<le> toDouble (e * 100)"
    by (rule toDouble_ge [rotated 2]) simp_all
  then have "(130 :: rat) \<le> toDouble (e * 100)" by simp
  then have "round (130 :: rat) \<le> ?n" by (rule round_mono)
  then have n: "130 \<le> ?n" by simp
  show ?thesis
  proof (cases "?n = 130")
    case True
    then show ?thesis by simp
  next
    case False
    with n have "131 \<le> ?n" by simp
    then have "(131 :: rat) \<le> of_int ?n" by linarith
    then have "of_int 5854679515581645 * 2 powi (- 52) \<le> (of_int ?n / 100 :: rat)"
      unfolding two_powi_m52 by simp
    then have "of_int 5854679515581645 * 2 powi (- 52) \<le> toDouble (of_int ?n / 100)"
      by (rule toDouble_ge [rotated 2]) simp_all
    then show ?thesis
      unfolding min_easiness_value .
  qed
qed

lemma increment_exact:
  assumes "\<bar>n\<bar> < 2 ^ 53"
  shows "round (toDouble (of_int n + 1)) = n + 1"
proof -
  from assms have "\<bar>n + 1\<bar> \<le> 2 ^ 53" by simp
  from toDouble_of_int [OF this] have "toDouble (of_int n + 1) = of_int (n + 1)"
    by simp
  then show ?thesis
    by (simp only: round_of_int)
qed

text \<open>
  Claim C2, as amended. For every card whose easiness is a double, whose interval is a double with an
  integer value and whose repetitions are an integer below \<open>2\<^sup>5\<^sup>3\<close> in magnitude (the
  bounds on the easiness and on the interval keep every result finite), and for every
  rating from 0 to 5: a rating below 3 resets repetitions and interval to 0; a rating of 3
  or more adds one repetition, and the interval is 1 at the first repetition, 6 at the
  second and, from the third on, the product of the old interval and the new easiness
  \<open>e\<close>, rounded to a double and then to an integer. The new easiness \<open>e\<close> is the old one plus
  \<open>0.1 - (5 - rating) * (0.08 + (5 - rating) * 0.02)\<close>, every literal the nearest double and
  every operation rounded to a double, and at least the double 1.3, which is not below
  13/10; the field returned is \<open>round (e * 100) / 100\<close> in double arithmetic, which is at
  least the double 1.3 as well. The difficulty is \<open>5 - rating + 1\<close> clamped to 1..5: 1 at
  rating 5 and 5 at rating 0.
\<close>

theorem computeSRS_update:
  assumes "0 \<le> rating" and "rating \<le> 5"
    and "isDouble (easiness fcard)" and "\<bar>easiness fcard\<bar> < 2 ^ 900"
    and "isDouble (of_int (interval fcard))" and "\<bar>interval fcard\<bar> < 2 ^ 100"
    and "\<bar>repetitions fcard\<bar> < 2 ^ 53"
  shows
    "let u = computeSRS fcard rating now;
         d = of_int (5 - rating);
         e = max (toDouble (13 / 10))
               (toDouble (easiness fcard
                  + toDouble (toDouble (1 / 10)
                      - toDouble (d * toDouble (toDouble (8 / 100)
                                                 + toDouble (d * toDouble (2 / 100)))))))
     in (rating < 3 \<longrightarrow> repetitions' u = 0 \<and> interval' u = 0)
        \<and> (3 \<le> rating \<longrightarrow>
             repetitions' u = repetitions fcard + 1
             \<and> (repetitions' u = 1 \<longrightarrow> interval' u = 1)
             \<and> (repetitions' u = 2 \<longrightarrow> interval' u = 6)
             \<and> (3 \<le> repetitions' u \<longrightarrow>
                   interval' u = round (toDouble (of_int (interval fcard) * e))))
        \<and> 13 / 10 \<le> toDouble (13 / 10)
        \<and> toDouble (13 / 10) \<le> e
        \<and> easiness' u = toDouble (of_int (round (toDouble (e * 100))) / 100)
        \<and> toDouble (13 / 10) \<le> easiness' u
        \<and> difficulty' u = max 1 (min 5 (5 - rating + 1))
        \<and> difficulty' u = (if rating = 0 then 5 else 6 - rating)
        \<and> (rating = 5 \<longrightarrow> difficulty' u = 1)
        \<and> (rating = 0 \<longrightarrow> difficulty' u = 5)"
proof -
  define x where "x = toDouble (easiness fcard
      + toDouble (toDouble (1 / 10)
          - toDouble (of_int (5 - rating) * toDouble (toDouble (8 / 100)
              + toDouble (of_int (5 - rating) * toDouble (2 / 100))))))"
  define e where "e = max (toDouble (13 / 10)) x"
  define u where "u = computeSRS fcard rating now"
  have floored: "(if x < MIN_EASINESS then MIN_EASINESS else x) = e"
    by (simp add: e_def MIN_EASINESS_def max_def)
  have ge: "toDouble (13 / 10) \<le> e"
    by (simp add: e_def)
  have inc: "round (toDouble (of_int (repetitions fcard) + 1)) = repetitions fcard + 1"
    using assms(7) by (rule increment_exact)
  have reps: "repetitions' u = (if rating < 3 then 0 else repetitions fcard + 1)"
    using inc by (simp add: u_def computeSRS_def Let_def)
  have "interval' u =
      (if rating < 3 then 0
       else if round (toDouble (of_int (repetitions fcard) + 1)) = 1 then 1
       else if round (toDouble (of_int (repetitions fcard) + 1)) = 2 then 6
       else round (toDouble (of_int (interval fcard)
                     * (if x < MIN_EASINESS then MIN_EASINESS else x))))"
    by (simp add: u_def computeSRS_def Let_def x_def)
  then have ival: "interval' u =
      (if rating < 3 then 0
       else if repetitions fcard + 1 = 1 then 1
       else if repetitions fcard + 1 = 2 then 6
       else round (toDouble (of_int (interval fcard) * e)))"
    unfolding floored inc .
  have "easiness' u =
      toDouble (of_int (round (toDouble ((if x < MIN_EASINESS then MIN_EASINESS else x) * 100)))
                / 100)"
    by (simp add: u_def computeSRS_def Let_def x_def)
  then have eas: "easiness' u = toDouble (of_int (round (toDouble (e * 100))) / 100)"
    unfolding floored .
  have diff: "difficulty' u = max 1 (min 5 (5 - rating + 1))"
    by (simp add: u_def computeSRS_def Let_def)
  have diff2: "difficulty' u = (if rating = 0 then 5 else 6 - rating)"
    using assms(1,2) by (simp add: diff max_def min_def)
  have "toDouble (13 / 10) \<le> easiness' u"
    unfolding eas using ge by (rule round2_at_least)
  with ge reps ival eas diff diff2 min_easiness_ge have
    "(rating < 3 \<longrightarrow> repetitions' u = 0 \<and> interval' u = 0)
        \<and> (3 \<le> rating \<longrightarrow>
             repetitions' u = repetitions fcard + 1
             \<and> (repetitions' u = 1 \<longrightarrow> interval' u = 1)
             \<and> (repetitions' u = 2 \<longrightarrow> interval' u = 6)
             \<and> (3 \<le> repetitions' u \<longrightarrow>
                   interval' u = round (toDouble (of_int (interval fcard) * e))))
        \<and> 13 / 10 \<le> toDouble (13 / 10)
        \<and> toDouble (13 / 10) \<le> e
        \<and> easiness' u = toDouble (of_int (round (toDouble (e * 100))) / 100)
        \<and> toDouble (13 / 10) \<le> easiness' u
        \<and> difficulty' u = max 1 (min 5 (5 - rating + 1))
        \<and> difficulty' u = (if rating = 0 then 5 else 6 - rating)
        \<and> (rating = 5 \<longrightarrow> difficulty' u = 1)
        \<and> (rating = 0 \<longrightarrow> difficulty' u = 5)"
    by simp
  then show ?thesis
    unfolding e_def x_def u_def Let_def .
qed

theorem computeSRS_update_witness:
  "repetitions' (computeSRS (passedCard 375 6) 3 0) = 7
   \<and> interval' (computeSRS (passedCard 375 6) 3 0) = 997
   \<and> interval' (computeSRS (passedCard 375 6) 3 0)
       = round (toDouble (375 * toDouble (toDouble (28 / 10) + toDouble (- 14 / 100))))
   \<and> easiness' (computeSRS (passedCard 375 6) 3 0) = toDouble (266 / 100)
   \<and> 13 / 10 \<le> easiness' (computeSRS (passedCard 375 6) 3 0)
   \<and> difficulty' (computeSRS (passedCard 375 6) 3 0) = 3"
proof -
  have r: "(0::int) \<le> 3" "(3::int) \<le> 5"
    by simp_all
  have c: "isDouble (easiness (passedCard 375 6))" "\<bar>easiness (passedCard 375 6)\<bar> < 2 ^ 900"
      "isDouble (of_int (interval (passedCard 375 6)))" "\<bar>interval (passedCard 375 6)\<bar> < 2 ^ 100"
      "\<bar>repetitions (passedCard 375 6)\<bar> < 2 ^ 53"
    by code_simp+
  have e: "max (toDouble (13 / 10))
        (toDouble (easiness (passedCard 375 6)
           + toDouble (toDouble (1 / 10)
               - toDouble (of_int (5 - 3) * toDouble (toDouble (8 / 100)
                   + toDouble (of_int (5 - 3) * toDouble (2 / 100)))))))
      = toDouble (toDouble (28 / 10) + toDouble (- 14 / 100))"
    by code_simp
  have v: "round (toDouble (of_int (interval (passedCard 375 6))
             * toDouble (toDouble (28 / 10) + toDouble (- 14 / 100)))) = 997"
      "round (toDouble (375 * toDouble (toDouble (28 / 10) + toDouble (- 14 / 100)))) = 997"
      "toDouble (of_int (round (toDouble (toDouble (toDouble (28 / 10) + toDouble (- 14 / 100)) * 100)))
         / 100) = toDouble (266 / 100)"
      "repetitions (passedCard 375 6) + 1 = 7"
    by code_simp+
  from computeSRS_update [OF r c, of 0] min_easiness_ge show ?thesis
    unfolding Let_def e v by simp
qed

text \<open>
  Claim C2 as it is written fails where the arithmetic of doubles rounds. A pass rated 4
  takes a card with the interval 134 and the easiness 2.8 to the interval 375 with the same
  easiness; at the rating 3 the source then computes the easiness 2.6599999999999997 and
  the interval 997, where 2.66 times 375, and the product with the easiness 2.66 that is
  returned, round to 998. Nor are the sum and the product exact on the doubles that the
  card holds: with the interval 45 and the easiness 2.8 the rating 5 gives the double 2.9
  and the interval 131, where the exact sum of the double 2.8 and 0.1, times 45, is below
  130.5.
\<close>

theorem computeSRS_exact_product_counterexample:
  "interval' (computeSRS (passedCard 134 5) 4 0) = 375
   \<and> repetitions' (computeSRS (passedCard 134 5) 4 0) = 6
   \<and> easiness' (computeSRS (passedCard 134 5) 4 0) = toDouble (28 / 10)
   \<and> interval' (computeSRS (passedCard 375 6) 3 0) = 997
   \<and> easiness' (computeSRS (passedCard 375 6) 3 0) = toDouble (266 / 100)
   \<and> round (375 * max (13 / 10) (28 / 10 + (1 / 10 - 2 * (8 / 100 + 2 * (2 / 100))))
             :: rat) = 998
   \<and> round (375 * (266 / 100) :: rat) = 998
   \<and> round (toDouble (375 * toDouble (266 / 100))) = 998
   \<and> interval' (computeSRS (passedCard 45 4) 5 0) = 131
   \<and> round (45 * max (13 / 10)
                    (easiness (passedCard 45 4) + (1 / 10 - 0 * (8 / 100 + 0 * (2 / 100))))
             :: rat) = 130"
  by code_simp

section \<open>Properties of the sentence ranking\<close>

lemma length_rankStep: "length (rankStep matrix scores) = length matrix"
  by (simp add: rankStep_def Let_def)

lemma length_rankIterate:
  "length scores = length matrix \<Longrightarrow> length (rankIterate k matrix scores) = length matrix"
  by (induction k arbitrary: scores) (simp_all add: Let_def length_rankStep)

lemma length_similarityMatrix: "length (similarityMatrix freqs) = length freqs"
  by (simp add: similarityMatrix_def Let_def)

lemma length_slice0:
  "length (slice0 xs k) =
     (if k < 0 then nat (int (length xs) + k) else min (length xs) (nat k))"
  by (auto simp: slice0_def)

lemma set_slice0: "set (slice0 xs k) \<subseteq> set xs"
  by (auto simp: slice0_def dest: in_set_takeD)

lemma distinct_slice0: "distinct (map f xs) \<Longrightarrow> distinct (map f (slice0 xs k))"
  by (simp add: slice0_def take_map [symmetric])

lemma textRank_ranked:
  "textRank sentences topN =
     (if length sentences = 0 then []
      else if int (length sentences) \<le> topN then [0..<length sentences]
      else map snd (slice0 (sort_key (\<lambda>x. - fst x)
             (zip (rankIterate 50 (similarityMatrix (map wordFrequency (map tokenize sentences)))
                     (replicate (length sentences) (1 / real (length sentences))))
                  [0..<length sentences])) topN))"
  by (simp add: textRank_def Let_def)

lemma mset_rankedIndices: "mset (rankedIndices sentences) = mset [0..<length sentences]"
proof -
  let ?n = "length sentences"
  let ?m = "similarityMatrix (map wordFrequency (map tokenize sentences))"
  let ?s = "rankIterate 50 ?m (replicate ?n (1 / real ?n))"
  have "length ?s = ?n"
    by (simp add: length_rankIterate length_similarityMatrix)
  then have "map snd (zip ?s [0..<?n]) = [0..<?n]"
    by simp
  then have "mset (map snd (sort_key (\<lambda>x. - fst x) (zip ?s [0..<?n]))) = mset [0..<?n]"
    by (metis mset_map mset_sort)
  then show ?thesis
    by (simp add: rankedIndices_def Let_def)
qed

lemma length_rankedIndices: "length (rankedIndices sentences) = length sentences"
  using mset_rankedIndices [of sentences] by (metis length_upt mset_eq_length minus_nat.diff_0)

lemma set_rankedIndices: "set (rankedIndices sentences) = {0..<length sentences}"
  using mset_rankedIndices [of sentences] by (metis mset_eq_setD set_upt)

lemma distinct_rankedIndices: "distinct (rankedIndices sentences)"
  using mset_rankedIndices [of sentences] by (metis distinct_upt mset_eq_imp_distinct_iff)

lemma textRank_cases:
  "textRank sentences topN =
     (if int (length sentences) \<le> topN then [0..<length sentences]
      else if topN < 0 then take (nat (int (length sentences) + topN)) (rankedIndices sentences)
      else take (nat topN) (rankedIndices sentences))"
  by (cases "length sentences = 0")
     (auto simp: textRank_ranked rankedIndices_def Let_def slice0_def take_map
        length_rankIterate length_similarityMatrix)

lemma length_textRank:
  "length (textRank sentences topN) =
     (if int (length sentences) \<le> topN then length sentences
      else if topN < 0 then nat (int (length sentences) + topN)
      else nat topN)"
  by (auto simp: textRank_cases length_rankedIndices)

lemma set_textRank: "set (textRank sentences topN) \<subseteq> {0..<length sentences}"
  using set_rankedIndices [of sentences]
  by (auto simp: textRank_cases dest!: in_set_takeD)

lemma distinct_textRank: "distinct (textRank sentences topN)"
  using distinct_rankedIndices [of sentences] by (simp add: textRank_cases)

text \<open>
  Claim C6, as amended. For every sentence list and every \<open>topN\<close> that is not negative,
  \<open>textRank\<close> returns at most \<open>topN\<close> indices; for every \<open>topN\<close> the indices are below the
  number of sentences and no index comes twice; and when there are at most \<open>topN\<close>
  sentences the result is all indices in their original order.
\<close>

theorem textRank_bounds:
  "(0 \<le> topN \<longrightarrow> int (length (textRank sentences topN)) \<le> topN)
   \<and> (\<forall>i\<in>set (textRank sentences topN). i < length sentences)
   \<and> distinct (textRank sentences topN)
   \<and> (int (length sentences) \<le> topN \<longrightarrow> textRank sentences topN = [0..<length sentences])"
proof -
  have "0 \<le> topN \<longrightarrow> int (length (textRank sentences topN)) \<le> topN"
    by (simp add: length_textRank)
  moreover have "\<forall>i\<in>set (textRank sentences topN). i < length sentences"
    using set_textRank [of sentences topN] by auto
  moreover have "int (length sentences) \<le> topN \<longrightarrow> textRank sentences topN = [0..<length sentences]"
    by (simp add: textRank_cases)
  ultimately show ?thesis
    using distinct_textRank [of sentences topN] by blast
qed

theorem textRank_bounds_witness:
  "textRank [''First sentence here.'', ''Second sentence here.''] 5 = [0, 1]
   \<and> int (length (textRank [''Machine learning is a subset of artificial intelligence.'',
        ''It involves algorithms that learn from data.'',
        ''Deep learning uses neural networks with many layers.''] 2)) \<le> 2"
proof -
  have "[0..<length [''First sentence here.'', ''Second sentence here.'']] = [0, 1]"
    by code_simp
  moreover have "int (length [''First sentence here.'', ''Second sentence here.'']) \<le> 5"
    by simp
  ultimately show ?thesis
    using textRank_bounds [of 5 "[''First sentence here.'', ''Second sentence here.'']"]
      textRank_bounds [of 2 "[''Machine learning is a subset of artificial intelligence.'',
        ''It involves algorithms that learn from data.'',
        ''Deep learning uses neural networks with many layers.'']"]
    by simp
qed

text \<open>
  Claim C6 as it is written fails for a negative \<open>topN\<close>: \<open>slice(0, -1)\<close> drops the last
  entry only, so two sentences and \<open>topN = -1\<close> give one index, which is more than \<open>topN\<close>.
\<close>

theorem textRank_negative_topN_counterexample:
  "length (textRank [''First sentence here.'', ''Second sentence here.''] (- 1)) = 1"
  by (simp add: length_textRank)

section \<open>Properties of the highlight extraction\<close>

lemma inOriginalOrder_all: "inOriginalOrder sentences [0..<length sentences] = sentences"
  by (simp add: inOriginalOrder_def sorted_sort_id map_nth)

lemma extractHighlights_filter:
  "extractHighlights sentences =
     map (\<lambda>i. sentences ! i)
       (filter (\<lambda>i. 20 < length (sentences ! i))
          (sort (textRank sentences (min 10 (int (length sentences))))))"
proof (cases "length sentences = 0")
  case True
  then show ?thesis
    by (simp add: extractHighlights_def textRank_cases)
next
  case False
  then show ?thesis
    by (simp add: extractHighlights_def inOriginalOrder_def filter_map comp_def)
qed

lemma highlights_summarize:
  "highlights (summarize rnd transcript userName) = extractHighlights (splitSentences transcript)"
proof (cases "length (splitSentences transcript) = 0")
  case True
  then show ?thesis
    by (simp add: summarize_def Let_def extractHighlights_def inOriginalOrder_def textRank_cases)
next
  case False
  then show ?thesis
    by (simp add: summarize_def Let_def extractHighlights_def)
qed

text \<open>
  Claim C3, as amended. Highlight extraction removes exactly the sentences of at most 20
  characters: every top-ranked sentence of more than 20 characters is among the
  highlights, every highlight has more than 20 characters, and the highlights are the
  chosen sentences in ascending order of their index. With ten sentences or fewer every
  sentence is top-ranked. The summary of the offline provider has the same highlights.
\<close>

theorem highlights_longer_than_20:
  "(\<forall>i\<in>set (textRank sentences (min 10 (int (length sentences)))).
      20 < length (sentences ! i) \<longrightarrow> sentences ! i \<in> set (extractHighlights sentences))
   \<and> (\<forall>h\<in>set (extractHighlights sentences). 20 < length h)
   \<and> (\<exists>is. sorted is \<and> distinct is
          \<and> set is \<subseteq> set (textRank sentences (min 10 (int (length sentences))))
          \<and> extractHighlights sentences = map (\<lambda>i. sentences ! i) is)
   \<and> (length sentences \<le> 10 \<longrightarrow>
        extractHighlights sentences = filter (\<lambda>s. 20 < length s) sentences)
   \<and> highlights (summarize rnd transcript userName)
        = extractHighlights (splitSentences transcript)"
proof -
  let ?top = "textRank sentences (min 10 (int (length sentences)))"
  let ?is = "filter (\<lambda>i. 20 < length (sentences ! i)) (sort ?top)"
  have eq: "extractHighlights sentences = map (\<lambda>i. sentences ! i) ?is"
    by (rule extractHighlights_filter)
  have a: "\<forall>i\<in>set ?top. 20 < length (sentences ! i)
              \<longrightarrow> sentences ! i \<in> set (extractHighlights sentences)"
    unfolding eq by auto
  have b: "\<forall>h\<in>set (extractHighlights sentences). 20 < length h"
    unfolding eq by auto
  have "sorted ?is \<and> distinct ?is \<and> set ?is \<subseteq> set ?top"
    using distinct_textRank [of sentences "min 10 (int (length sentences))"]
    by (auto simp: sorted_wrt_filter)
  with eq have c: "\<exists>is. sorted is \<and> distinct is \<and> set is \<subseteq> set ?top
      \<and> extractHighlights sentences = map (\<lambda>i. sentences ! i) is"
    by blast
  have d: "length sentences \<le> 10 \<longrightarrow>
      extractHighlights sentences = filter (\<lambda>s. 20 < length s) sentences"
  proof
    assume "length sentences \<le> 10"
    then have "?top = [0..<length sentences]"
      by (simp add: textRank_cases)
    then show "extractHighlights sentences = filter (\<lambda>s. 20 < length s) sentences"
      by (cases "length sentences = 0")
         (simp_all add: extractHighlights_def inOriginalOrder_all)
  qed
  from a b c d highlights_summarize [of rnd transcript userName] show ?thesis
    by blast
qed

theorem highlights_longer_than_20_witness:
  "extractHighlights [''Ship it by Thursday.'',
       ''We decided to move forward with the new platform.'']
     = [''We decided to move forward with the new platform.'']"
proof -
  have "length [''Ship it by Thursday.'',
       ''We decided to move forward with the new platform.''] \<le> 10"
    by simp
  with highlights_longer_than_20 [of "[''Ship it by Thursday.'',
       ''We decided to move forward with the new platform.'']"]
  show ?thesis by simp
qed

text \<open>
  Claim C3 as it is written fails for a sentence of exactly 20 characters: it is the
  only and so the top-ranked sentence, and it is not among the highlights, neither of
  \<open>extractHighlights\<close> nor of the offline provider's summary.
\<close>

theorem highlights_exactly_20_counterexample:
  "length ''Ship it by Thursday.'' = 20
   \<and> trim ''Ship it by Thursday.'' = ''Ship it by Thursday.''
   \<and> textRank [''Ship it by Thursday.''] (min 10 1) = [0]
   \<and> extractHighlights [''Ship it by Thursday.''] = []
   \<and> splitSentences ''Ship it by Thursday.'' = [''Ship it by Thursday.'']
   \<and> highlights (summarize noDraws ''Ship it by Thursday.'' ''TestUser'') = []"
proof -
  have s: "splitSentences ''Ship it by Thursday.'' = [''Ship it by Thursday.'']"
    by code_simp
  have t: "trim ''Ship it by Thursday.'' = ''Ship it by Thursday.''"
    by code_simp
  have r: "textRank [''Ship it by Thursday.''] (min 10 1) = [0]"
    by (simp add: textRank_cases)
  have h: "extractHighlights [''Ship it by Thursday.''] = []"
    by (simp add: extractHighlights_def inOriginalOrder_def textRank_cases)
  show ?thesis
    using r h by (simp add: highlights_summarize s t)
qed

section \<open>Properties of the chunking\<close>

lemma length_trim: "length (trim s) \<le> length s"
proof -
  have "length (trim s) \<le> length (rev (dropWhile isSpace s))"
    unfolding trim_def by (metis length_dropWhile_le length_rev)
  also have "\<dots> \<le> length s"
    by (simp add: length_dropWhile_le)
  finally show ?thesis .
qed

lemma filter_dropWhile_space:
  "filter (\<lambda>c. \<not> isSpace c) (dropWhile isSpace s) = filter (\<lambda>c. \<not> isSpace c) s"
  by (induction s) simp_all

lemma filter_trim: "filter (\<lambda>c. \<not> isSpace c) (trim s) = filter (\<lambda>c. \<not> isSpace c) s"
  by (simp add: trim_def filter_dropWhile_space rev_filter [symmetric])

lemma trim_empty_no_content: "trim s = [] \<Longrightarrow> filter (\<lambda>c. \<not> isSpace c) s = []"
  by (metis filter.simps(1) filter_trim)

lemma isSpace_blank: "isSpace CHR '' ''"
  by (simp add: isSpace_def)

lemma chunkLoop_chunks:
  "chunkLoop maxChars chunks current sentences = chunks @ chunkLoop maxChars [] current sentences"
proof (induction sentences arbitrary: chunks current)
  case Nil
  show ?case by simp
next
  case (Cons s rest)
  show ?case
    by (simp add: Let_def Cons.IH [of "chunks @ [trim current]"] Cons.IH [of "[trim current]"])
       (simp add: Cons.IH [of chunks])
qed

lemma chunkLoop_Cons:
  "chunkLoop maxChars [] current (s # rest) =
     (if int (length current) + int (length s) + 1 > maxChars \<and> current \<noteq> []
      then trim current # chunkLoop maxChars [] s rest
      else chunkLoop maxChars [] (current @ (if current \<noteq> [] then '' '' else []) @ s) rest)"
  by (simp add: Let_def chunkLoop_chunks [of maxChars "[trim current]"])

lemma fits_trim:
  assumes "current = [] \<or> int (length current) \<le> maxChars \<or> current \<in> S"
    and "current \<noteq> []"
  shows "fits maxChars S (trim current)"
proof (cases "int (length current) \<le> maxChars")
  case True
  with length_trim [of current] show ?thesis
    by (simp add: fits_def)
next
  case False
  with assms have "current \<in> S" and "maxChars < int (length current)"
    by simp_all
  then show ?thesis
    unfolding fits_def by blast
qed

lemma chunkLoop_fits:
  assumes "set sentences \<subseteq> S"
    and "current = [] \<or> int (length current) \<le> maxChars \<or> current \<in> S"
  shows "\<forall>c\<in>set (chunkLoop maxChars [] current sentences). fits maxChars S c"
  using assms
proof (induction sentences arbitrary: current)
  case Nil
  have "current \<noteq> []" if "trim current \<noteq> []"
    using that by (auto simp: trim_def)
  with Nil show ?case
    using fits_trim [of current maxChars S] by auto
next
  case (Cons s rest)
  from Cons.prems have s: "s \<in> S" and rest: "set rest \<subseteq> S"
    by simp_all
  show ?case
  proof (cases "int (length current) + int (length s) + 1 > maxChars \<and> current \<noteq> []")
    case True
    then have eq: "chunkLoop maxChars [] current (s # rest)
        = trim current # chunkLoop maxChars [] s rest"
      unfolding chunkLoop_Cons by simp
    have "\<forall>c\<in>set (chunkLoop maxChars [] s rest). fits maxChars S c"
      using rest s by (intro Cons.IH) simp_all
    moreover have "fits maxChars S (trim current)"
      using fits_trim [of current maxChars S] Cons.prems(2) True by blast
    ultimately show ?thesis
      unfolding eq by simp
  next
    case False
    let ?next = "current @ (if current \<noteq> [] then '' '' else []) @ s"
    from False have eq: "chunkLoop maxChars [] current (s # rest)
        = chunkLoop maxChars [] ?next rest"
      unfolding chunkLoop_Cons by auto
    have "?next = [] \<or> int (length ?next) \<le> maxChars \<or> ?next \<in> S"
      using False s by auto
    then have "\<forall>c\<in>set (chunkLoop maxChars [] ?next rest). fits maxChars S c"
      using rest by (intro Cons.IH) simp_all
    then show ?thesis
      unfolding eq .
  qed
qed

lemma chunkLoop_content:
  "filter (\<lambda>c. \<not> isSpace c) (concat (chunkLoop maxChars [] current sentences))
     = filter (\<lambda>c. \<not> isSpace c) (current @ concat sentences)"
proof (induction sentences arbitrary: current)
  case Nil
  show ?case
    by (simp add: filter_trim trim_empty_no_content)
next
  case (Cons s rest)
  show ?case
  proof (cases "int (length current) + int (length s) + 1 > maxChars \<and> current \<noteq> []")
    case True
    then have eq: "chunkLoop maxChars [] current (s # rest)
        = trim current # chunkLoop maxChars [] s rest"
      unfolding chunkLoop_Cons by simp
    show ?thesis
      unfolding eq by (simp add: Cons.IH filter_trim)
  next
    case False
    then have eq: "chunkLoop maxChars [] current (s # rest)
        = chunkLoop maxChars [] (current @ (if current \<noteq> [] then '' '' else []) @ s) rest"
      unfolding chunkLoop_Cons by auto
    show ?thesis
      unfolding eq by (simp add: Cons.IH isSpace_blank)
  qed
qed

lemma splitAfterStop_content:
  "filter (\<lambda>c. \<not> isSpace c) (concat (splitAfterStop cur t))
     = filter (\<lambda>c. \<not> isSpace c) (cur @ t)"
  by (induction cur t rule: splitAfterStop.induct) (simp_all add: filter_dropWhile_space)

lemma glue_snoc: "glue (g @ [s]) = glue g @ (if glue g \<noteq> [] then '' '' else []) @ s"
  by (simp add: glue_def)

lemma glue_single: "glue [s] = s"
  by (simp add: glue_def)

lemma chunkLoop_groups:
  "\<exists>groups. concat groups = g0 @ sentences
     \<and> filter (\<lambda>c. c \<noteq> []) (chunkLoop maxChars [] (glue g0) sentences)
         = filter (\<lambda>c. c \<noteq> []) (map (\<lambda>g. trim (glue g)) groups)"
proof (induction sentences arbitrary: g0)
  case Nil
  have "concat [g0] = g0 @ []
     \<and> filter (\<lambda>c. c \<noteq> []) (chunkLoop maxChars [] (glue g0) [])
         = filter (\<lambda>c. c \<noteq> []) (map (\<lambda>g. trim (glue g)) [g0])"
    by simp
  then show ?case by blast
next
  case (Cons s rest)
  show ?case
  proof (cases "int (length (glue g0)) + int (length s) + 1 > maxChars \<and> glue g0 \<noteq> []")
    case True
    then have eq: "chunkLoop maxChars [] (glue g0) (s # rest)
        = trim (glue g0) # chunkLoop maxChars [] (glue [s]) rest"
      unfolding chunkLoop_Cons glue_single by simp
    from Cons.IH [of "[s]"] obtain groups where
      g: "concat groups = [s] @ rest"
        "filter (\<lambda>c. c \<noteq> []) (chunkLoop maxChars [] (glue [s]) rest)
           = filter (\<lambda>c. c \<noteq> []) (map (\<lambda>g. trim (glue g)) groups)"
      by blast
    have "concat (g0 # groups) = g0 @ s # rest
       \<and> filter (\<lambda>c. c \<noteq> []) (chunkLoop maxChars [] (glue g0) (s # rest))
           = filter (\<lambda>c. c \<noteq> []) (map (\<lambda>g. trim (glue g)) (g0 # groups))"
      unfolding eq using g by simp
    then show ?thesis by blast
  next
    case False
    then have eq: "chunkLoop maxChars [] (glue g0) (s # rest)
        = chunkLoop maxChars [] (glue (g0 @ [s])) rest"
      unfolding chunkLoop_Cons glue_snoc by auto
    from Cons.IH [of "g0 @ [s]"] show ?thesis
      unfolding eq by simp
  qed
qed

text \<open>
  Claim C5. For every text and every limit: each chunk is at most \<open>maxChars\<close> long, or
  it is one sentence of the split, trimmed, that is longer than \<open>maxChars\<close> by itself; no
  content is dropped: the chunks put together have the characters of the text in the
  same order, white space apart; a text longer than \<open>maxChars\<close> is cut between sentences
  only: its chunks are consecutive groups of whole sentences, glued by single blanks and
  trimmed; and a text of at most \<open>maxChars\<close> characters comes back as the one chunk, as a
  hundred \<open>x\<close> do at the limit 100.
\<close>

theorem chunkText_chunks:
  "(\<forall>c\<in>set (chunkText t maxChars).
      int (length c) \<le> maxChars
      \<or> (\<exists>s\<in>set (splitAfterStop [] t). maxChars < int (length s) \<and> c = trim s))
   \<and> filter (\<lambda>c. \<not> isSpace c) (concat (chunkText t maxChars)) = filter (\<lambda>c. \<not> isSpace c) t
   \<and> (maxChars < int (length t) \<longrightarrow>
        (\<exists>groups. concat groups = splitAfterStop [] t
           \<and> filter (\<lambda>c. c \<noteq> []) (chunkText t maxChars)
               = filter (\<lambda>c. c \<noteq> []) (map (\<lambda>g. trim (glue g)) groups)))
   \<and> (int (length t) \<le> maxChars \<longrightarrow> chunkText t maxChars = [t])
   \<and> chunkText (replicate 100 CHR ''x'') 100 = [replicate 100 CHR ''x'']"
proof -
  have a: "\<forall>c\<in>set (chunkText t maxChars).
      int (length c) \<le> maxChars
      \<or> (\<exists>s\<in>set (splitAfterStop [] t). maxChars < int (length s) \<and> c = trim s)"
  proof (cases "int (length t) \<le> maxChars")
    case True
    then show ?thesis
      by (simp add: chunkText_def)
  next
    case False
    have "\<forall>c\<in>set (chunkLoop maxChars [] [] (splitAfterStop [] t)).
        fits maxChars (set (splitAfterStop [] t)) c"
      by (rule chunkLoop_fits) simp_all
    then show ?thesis
      using False by (simp add: chunkText_def fits_def)
  qed
  have b: "filter (\<lambda>c. \<not> isSpace c) (concat (chunkText t maxChars))
      = filter (\<lambda>c. \<not> isSpace c) t"
    using splitAfterStop_content [of "[]" t]
    by (simp add: chunkText_def chunkLoop_content del: filter_append)
  have c: "chunkText (replicate 100 CHR ''x'') 100 = [replicate 100 CHR ''x'']"
    by (simp add: chunkText_def)
  have d: "maxChars < int (length t) \<longrightarrow>
        (\<exists>groups. concat groups = splitAfterStop [] t
           \<and> filter (\<lambda>c. c \<noteq> []) (chunkText t maxChars)
               = filter (\<lambda>c. c \<noteq> []) (map (\<lambda>g. trim (glue g)) groups))"
    using chunkLoop_groups [of "[]" "splitAfterStop [] t" maxChars]
    by (simp add: chunkText_def glue_def)
  from a b c d show ?thesis
    by (simp add: chunkText_def)
qed

theorem chunkText_chunks_witness:
  "chunkText ''Hello world.'' 100 = [''Hello world.'']
   \<and> chunkText ''A. B. C. D. E. F. G.'' 10 = [''A. B. C.'', ''D. E. F.'', ''G.'']
   \<and> list_all (\<lambda>c. int (length c) \<le> 10) (chunkText ''A. B. C. D. E. F. G.'' 10)
   \<and> filter (\<lambda>c. \<not> isSpace c) (concat (chunkText ''A. B. C. D. E. F. G.'' 10)) = ''A.B.C.D.E.F.G.''"
proof -
  have l: "int (length ''Hello world.'') \<le> 100"
    by simp
  have v: "chunkText ''A. B. C. D. E. F. G.'' 10 = [''A. B. C.'', ''D. E. F.'', ''G.'']"
    by code_simp
  have f: "filter (\<lambda>c. \<not> isSpace c) ''A. B. C. D. E. F. G.'' = ''A.B.C.D.E.F.G.''"
    by code_simp
  from chunkText_chunks [of "''Hello world.''" 100] l
  have "chunkText ''Hello world.'' 100 = [''Hello world.'']"
    by blast
  moreover from chunkText_chunks [of "''A. B. C. D. E. F. G.''" 10]
  have "filter (\<lambda>c. \<not> isSpace c) (concat (chunkText ''A. B. C. D. E. F. G.'' 10))
      = ''A.B.C.D.E.F.G.''"
    unfolding f by blast
  ultimately show ?thesis
    using v by simp
qed

section \<open>Properties of the flashcard synthesis\<close>

lemma dedupe_unseen: "x \<in> set (dedupe seen cs) \<Longrightarrow> frontKey x \<notin> set seen"
proof (induction cs arbitrary: seen)
  case Nil
  then show ?case by simp
next
  case (Cons c cs)
  show ?case
  proof (cases "frontKey c \<in> set seen")
    case True
    with Cons.prems have "x \<in> set (dedupe seen cs)" by simp
    then show ?thesis by (rule Cons.IH)
  next
    case False
    with Cons.prems have "x = c \<or> x \<in> set (dedupe (frontKey c # seen) cs)" by simp
    then show ?thesis
    proof
      assume "x = c"
      with False show ?thesis by simp
    next
      assume "x \<in> set (dedupe (frontKey c # seen) cs)"
      then have "frontKey x \<notin> set (frontKey c # seen)" by (rule Cons.IH)
      then show ?thesis by simp
    qed
  qed
qed

lemma distinct_dedupe: "distinct (map frontKey (dedupe seen cs))"
proof (induction cs arbitrary: seen)
  case Nil
  show ?case by simp
next
  case (Cons c cs)
  have "frontKey x \<noteq> frontKey c" if "x \<in> set (dedupe (frontKey c # seen) cs)" for x
    using dedupe_unseen [OF that] by simp
  then have "frontKey c \<notin> frontKey ` set (dedupe (frontKey c # seen) cs)"
    by force
  with Cons show ?case by simp
qed

lemma find_dedupe:
  "find (\<lambda>c. frontKey c = k) (dedupe seen cs) =
     (if k \<in> set seen then None else find (\<lambda>c. frontKey c = k) cs)"
  by (induction cs arbitrary: seen) auto

lemma subseq_dedupe: "subseq (dedupe seen cs) cs"
  by (induction cs arbitrary: seen) auto

lemma frontKey_eq: "frontKey = (\<lambda>c. trim (toLowerCase (front c)))"
  by (rule ext) (simp add: frontKey_def)

lemma distinct_dedupe_front:
  "distinct (map (\<lambda>c. trim (toLowerCase (front c))) (dedupe seen cs))"
  using distinct_dedupe [of seen cs] unfolding frontKey_eq .

lemma find_dedupe_front:
  "find (\<lambda>c. trim (toLowerCase (front c)) = k) (dedupe [] cs)
     = find (\<lambda>c. trim (toLowerCase (front c)) = k) cs"
  using find_dedupe [of k "[]" cs] unfolding frontKey_def by simp

text \<open>
  Claim C9. For every summary, no two cards of the output have the same front after
  lower-casing and trimming, in the generator and in the offline provider alike. The
  first card generated wins: for every normalised front, the card of the output with it
  is the first card with it among all cards generated, and the output keeps the order of
  generation. For one, the key points \<open>Budget\<close> and \<open>BUDGET\<close> with a space at its end give
  the question cards \<open>Explain: Budget\<close> and \<open>Explain: BUDGET\<close> with that space, and two cloze
  cards whose fronts differ in the space only; the first question card and the first
  cloze card stay. For another, a key point without a capital is the front of its
  question card and of the definition card of its topic; the question card, generated
  first, stays.
\<close>

theorem flashcards_unique_fronts:
  "distinct (map (\<lambda>c. trim (toLowerCase (front c)))
              (generateFlashcards ids clock nid summary segments))
   \<and> distinct (map (\<lambda>c. trim (toLowerCase (front c)))
                (generateFlashcards_offline transcript osummary))
   \<and> find (\<lambda>c. trim (toLowerCase (front c)) = k)
         (generateFlashcards ids clock nid summary segments)
       = find (\<lambda>c. trim (toLowerCase (front c)) = k) (allCards ids clock nid summary)
   \<and> find (\<lambda>c. trim (toLowerCase (front c)) = k)
         (generateFlashcards_offline transcript osummary)
       = find (\<lambda>c. trim (toLowerCase (front c)) = k) (allCards_offline transcript osummary)
   \<and> subseq (generateFlashcards ids clock nid summary segments) (allCards ids clock nid summary)
   \<and> subseq (generateFlashcards_offline transcript osummary)
        (allCards_offline transcript osummary)
   \<and> map (\<lambda>c. (ctype c, front c)) (allCards sampleIds sampleClock ''note-1'' caseSummary)
       = [(Qa, ''Explain: Budget''), (Qa, ''Explain: BUDGET ''),
          (Cloze, ''[___]''), (Cloze, ''[___] '')]
   \<and> map (\<lambda>c. (ctype c, front c))
         (generateFlashcards sampleIds sampleClock ''note-1'' caseSummary [])
       = [(Qa, ''Explain: Budget''), (Cloze, ''[___]'')]
   \<and> map (\<lambda>c. (ctype c, front c)) (allCards_offline [] (Some caseSummary))
       = [(Qa, ''Explain: Budget''), (Qa, ''Explain: BUDGET ''),
          (Cloze, ''[___]''), (Cloze, ''[___] '')]
   \<and> map (\<lambda>c. (ctype c, front c)) (generateFlashcards_offline [] (Some caseSummary))
       = [(Qa, ''Explain: Budget''), (Cloze, ''[___]'')]
   \<and> map (\<lambda>c. (ctype c, front c)) (allCards sampleIds sampleClock ''note-1'' sampleSummary)
       = [(Qa, ''revenue grew by 15% last quarter.''),
          (Cloze, ''[___] grew by 15% last quarter.''),
          (TermDef, ''Define: Revenue''),
          (DefTerm, ''revenue grew by 15% last quarter.'')]
   \<and> map (\<lambda>c. (ctype c, front c))
         (generateFlashcards sampleIds sampleClock ''note-1'' sampleSummary [])
       = [(Qa, ''revenue grew by 15% last quarter.''),
          (Cloze, ''[___] grew by 15% last quarter.''),
          (TermDef, ''Define: Revenue'')]"
proof -
  have c1: "map (\<lambda>c. (ctype c, front c)) (allCards sampleIds sampleClock ''note-1'' caseSummary)
       = [(Qa, ''Explain: Budget''), (Qa, ''Explain: BUDGET ''),
          (Cloze, ''[___]''), (Cloze, ''[___] '')]"
    by code_simp
  have c2: "map (\<lambda>c. (ctype c, front c))
         (generateFlashcards sampleIds sampleClock ''note-1'' caseSummary [])
       = [(Qa, ''Explain: Budget''), (Cloze, ''[___]'')]"
    by code_simp
  have c3: "map (\<lambda>c. (ctype c, front c)) (allCards_offline [] (Some caseSummary))
       = [(Qa, ''Explain: Budget''), (Qa, ''Explain: BUDGET ''),
          (Cloze, ''[___]''), (Cloze, ''[___] '')]"
    by code_simp
  have c4: "map (\<lambda>c. (ctype c, front c)) (generateFlashcards_offline [] (Some caseSummary))
       = [(Qa, ''Explain: Budget''), (Cloze, ''[___]'')]"
    by code_simp
  have s1: "map (\<lambda>c. (ctype c, front c)) (allCards sampleIds sampleClock ''note-1'' sampleSummary)
       = [(Qa, ''revenue grew by 15% last quarter.''),
          (Cloze, ''[___] grew by 15% last quarter.''),
          (TermDef, ''Define: Revenue''),
          (DefTerm, ''revenue grew by 15% last quarter.'')]"
    by code_simp
  have s2: "map (\<lambda>c. (ctype c, front c))
         (generateFlashcards sampleIds sampleClock ''note-1'' sampleSummary [])
       = [(Qa, ''revenue grew by 15% last quarter.''),
          (Cloze, ''[___] grew by 15% last quarter.''),
          (TermDef, ''Define: Revenue'')]"
    by code_simp
  show ?thesis
    unfolding c1 c2 c3 c4 s1 s2
    by (simp add: generateFlashcards_def generateFlashcards_offline_def distinct_dedupe_front
        find_dedupe_front subseq_dedupe)
qed

section \<open>Properties of the summary assembly\<close>

lemma inOriginalOrder_Nil: "inOriginalOrder [] (textRank [] k) = []"
  by (simp add: inOriginalOrder_def textRank_cases)

lemma summarize_fields:
  "tldr (summarize rnd t u)
     = inOriginalOrder (splitSentences t)
         (textRank (splitSentences t) (min 5 (int (length (splitSentences t)))))"
  "keyPoints (summarize rnd t u)
     = inOriginalOrder (splitSentences t)
         (textRank (splitSentences t) (min 10 (int (length (splitSentences t)))))"
  "decisions (summarize rnd t u) = extractDecisions (splitSentences t)"
  "actionItems (summarize rnd t u) = extractActionItems (splitSentences t) u"
  "openQuestions (summarize rnd t u) = take 10 (filter endsWithQuestionMark (splitSentences t))"
  "topics (summarize rnd t u) = extractTopics t"
  "followUps (summarize rnd t u) = generateFollowUps rnd (extractTopics t)"
  "sentimentBySegment (summarize rnd t u)
     = analyzeSentimentBatch (filter (\<lambda>s. s \<noteq> []) (splitDotSpace [] t))"
  by (simp_all add: summarize_def Let_def)

lemma summarize_local_fields:
  "tldr (summarize_local rnd newId now nid segments u)
     = inOriginalOrder (splitSentences (joinWith ''. '' (map seg_text segments)))
         (textRank (splitSentences (joinWith ''. '' (map seg_text segments)))
            (min 5 (int (length (splitSentences (joinWith ''. '' (map seg_text segments)))))))"
  "keyPoints (summarize_local rnd newId now nid segments u)
     = inOriginalOrder (splitSentences (joinWith ''. '' (map seg_text segments)))
         (textRank (splitSentences (joinWith ''. '' (map seg_text segments)))
            (min 10 (int (length (splitSentences (joinWith ''. '' (map seg_text segments)))))))"
  "decisions (summarize_local rnd newId now nid segments u)
     = extractDecisions_local (splitSentences (joinWith ''. '' (map seg_text segments)))"
  "actionItems (summarize_local rnd newId now nid segments u)
     = extractActionItems (splitSentences (joinWith ''. '' (map seg_text segments))) u"
  "openQuestions (summarize_local rnd newId now nid segments u)
     = extractOpenQuestions (splitSentences (joinWith ''. '' (map seg_text segments)))"
  "topics (summarize_local rnd newId now nid segments u)
     = extractTopics (joinWith ''. '' (map seg_text segments))"
  "highlights (summarize_local rnd newId now nid segments u)
     = extractHighlights (splitSentences (joinWith ''. '' (map seg_text segments)))"
  "followUps (summarize_local rnd newId now nid segments u)
     = generateFollowUps rnd (extractTopics (joinWith ''. '' (map seg_text segments)))"
  "sentimentBySegment (summarize_local rnd newId now nid segments u)
     = analyzeSentimentBatch (map seg_text segments)"
  by (simp_all add: summarize_local_def Let_def)

lemma no_sentences_fields:
  "inOriginalOrder [] (textRank [] (min k (int (length ([] :: string list))))) = []"
  "extractDecisions [] = []"
  "extractDecisions_local [] = []"
  "extractActionItems [] u = []"
  "extractOpenQuestions [] = []"
  "extractHighlights [] = []"
  by (simp_all add: inOriginalOrder_Nil extractDecisions_def extractDecisions_local_def
      extractActionItems_def extractOpenQuestions_def extractHighlights_def)

lemma generateFollowUps_Nil: "generateFollowUps rnd [] = []"
  by (simp add: generateFollowUps_def)

lemma empty_text_values:
  "splitSentences [] = []"
  "extractTopics [] = []"
  "filter (\<lambda>s. s \<noteq> []) (splitDotSpace [] []) = []"
  by code_simp+

lemma joined_empty_values:
  "joinWith ''. '' (map seg_text [\<lparr>seg_text = []\<rparr>]) = []"
  "joinWith ''. '' (map seg_text [\<lparr>seg_text = ''Hello.''\<rparr>]) = ''Hello.''"
  "joinWith ''. '' [[]] = []"
  "joinWith ''. '' [''Hello.''] = ''Hello.''"
  by (simp_all add: joinWith_def)

text \<open>
  Claim C7, as amended. The model is a total function, so nothing is raised. For the empty
  transcript the offline provider returns the summary whose nine sequences are all empty,
  and so does the local summarizer for no segments. For a transcript that yields no
  sentences, the six sequences drawn from the sentences are empty, in both: \<open>tldr\<close>,
  \<open>keyPoints\<close>, \<open>decisions\<close>, \<open>actionItems\<close>, \<open>openQuestions\<close> and \<open>highlights\<close>. The
  transcript of the local summarizer is the texts of its segments joined by a full stop
  and a space; when it is empty, \<open>topics\<close> and \<open>followUps\<close> are empty as well. Its
  \<open>sentimentBySegment\<close> has one score for every segment, so it is empty for no segments
  only.
\<close>

theorem summarize_empty:
  "summarize rnd [] userName =
     \<lparr>tldr = [], keyPoints = [], decisions = [], actionItems = [], openQuestions = [],
      topics = [], highlights = [], followUps = [], sentimentBySegment = []\<rparr>
   \<and> AiSummaryResult.truncate (summarize_local rnd newId now nid [] userName) =
     \<lparr>tldr = [], keyPoints = [], decisions = [], actionItems = [], openQuestions = [],
      topics = [], highlights = [], followUps = [], sentimentBySegment = []\<rparr>
   \<and> (splitSentences transcript = [] \<longrightarrow>
        tldr (summarize rnd transcript userName) = []
        \<and> keyPoints (summarize rnd transcript userName) = []
        \<and> decisions (summarize rnd transcript userName) = []
        \<and> actionItems (summarize rnd transcript userName) = []
        \<and> openQuestions (summarize rnd transcript userName) = []
        \<and> highlights (summarize rnd transcript userName) = [])
   \<and> (splitSentences (joinWith ''. '' (map seg_text segments)) = [] \<longrightarrow>
        tldr (summarize_local rnd newId now nid segments userName) = []
        \<and> keyPoints (summarize_local rnd newId now nid segments userName) = []
        \<and> decisions (summarize_local rnd newId now nid segments userName) = []
        \<and> actionItems (summarize_local rnd newId now nid segments userName) = []
        \<and> openQuestions (summarize_local rnd newId now nid segments userName) = []
        \<and> highlights (summarize_local rnd newId now nid segments userName) = [])
   \<and> (joinWith ''. '' (map seg_text segments) = [] \<longrightarrow>
        tldr (summarize_local rnd newId now nid segments userName) = []
        \<and> keyPoints (summarize_local rnd newId now nid segments userName) = []
        \<and> decisions (summarize_local rnd newId now nid segments userName) = []
        \<and> actionItems (summarize_local rnd newId now nid segments userName) = []
        \<and> openQuestions (summarize_local rnd newId now nid segments userName) = []
        \<and> topics (summarize_local rnd newId now nid segments userName) = []
        \<and> highlights (summarize_local rnd newId now nid segments userName) = []
        \<and> followUps (summarize_local rnd newId now nid segments userName) = [])
   \<and> length (sentimentBySegment (summarize_local rnd newId now nid segments userName))
       = length segments
   \<and> (sentimentBySegment (summarize_local rnd newId now nid segments userName) = []) =
       (segments = [])"
proof -
  have a: "summarize rnd [] userName =
     \<lparr>tldr = [], keyPoints = [], decisions = [], actionItems = [], openQuestions = [],
      topics = [], highlights = [], followUps = [], sentimentBySegment = []\<rparr>"
    by (simp add: summarize_def Let_def empty_text_values no_sentences_fields
        inOriginalOrder_Nil generateFollowUps_Nil analyzeSentimentBatch_def)
  have b: "AiSummaryResult.truncate (summarize_local rnd newId now nid [] userName) =
     \<lparr>tldr = [], keyPoints = [], decisions = [], actionItems = [], openQuestions = [],
      topics = [], highlights = [], followUps = [], sentimentBySegment = []\<rparr>"
    by (simp add: summarize_local_def Let_def AiSummaryResult.truncate_def joinWith_def
        empty_text_values no_sentences_fields inOriginalOrder_Nil generateFollowUps_Nil
        analyzeSentimentBatch_def)
  have c: "splitSentences transcript = [] \<longrightarrow>
        tldr (summarize rnd transcript userName) = []
        \<and> keyPoints (summarize rnd transcript userName) = []
        \<and> decisions (summarize rnd transcript userName) = []
        \<and> actionItems (summarize rnd transcript userName) = []
        \<and> openQuestions (summarize rnd transcript userName) = []
        \<and> highlights (summarize rnd transcript userName) = []"
    by (simp add: summarize_fields highlights_summarize no_sentences_fields inOriginalOrder_Nil)
  have d: "splitSentences (joinWith ''. '' (map seg_text segments)) = [] \<longrightarrow>
        tldr (summarize_local rnd newId now nid segments userName) = []
        \<and> keyPoints (summarize_local rnd newId now nid segments userName) = []
        \<and> decisions (summarize_local rnd newId now nid segments userName) = []
        \<and> actionItems (summarize_local rnd newId now nid segments userName) = []
        \<and> openQuestions (summarize_local rnd newId now nid segments userName) = []
        \<and> highlights (summarize_local rnd newId now nid segments userName) = []"
    by (simp add: summarize_local_fields no_sentences_fields inOriginalOrder_Nil)
  have e: "joinWith ''. '' (map seg_text segments) = [] \<longrightarrow>
        tldr (summarize_local rnd newId now nid segments userName) = []
        \<and> keyPoints (summarize_local rnd newId now nid segments userName) = []
        \<and> decisions (summarize_local rnd newId now nid segments userName) = []
        \<and> actionItems (summarize_local rnd newId now nid segments userName) = []
        \<and> openQuestions (summarize_local rnd newId now nid segments userName) = []
        \<and> topics (summarize_local rnd newId now nid segments userName) = []
        \<and> highlights (summarize_local rnd newId now nid segments userName) = []
        \<and> followUps (summarize_local rnd newId now nid segments userName) = []"
    by (simp add: summarize_local_fields empty_text_values no_sentences_fields
        inOriginalOrder_Nil generateFollowUps_Nil)
  have f: "length (sentimentBySegment (summarize_local rnd newId now nid segments userName))
       = length segments"
    by (simp add: summarize_local_fields analyzeSentimentBatch_def)
  from f have g: "(sentimentBySegment (summarize_local rnd newId now nid segments userName) = [])
       = (segments = [])"
    by (metis length_0_conv)
  from a b c d e f g show ?thesis by blast
qed

theorem summarize_empty_witness:
  "splitSentences ''Hello.'' = []
   \<and> tldr (summarize noDraws ''Hello.'' ''TestUser'') = []
   \<and> keyPoints (summarize noDraws ''Hello.'' ''TestUser'') = []
   \<and> actionItems (summarize noDraws ''Hello.'' ''TestUser'') = []
   \<and> highlights (summarize noDraws ''Hello.'' ''TestUser'') = []
   \<and> tldr (summarize_local noDraws ''id'' 0 ''n'' [\<lparr>seg_text = ''Hello.''\<rparr>] ''TestUser'') = []
   \<and> highlights (summarize_local noDraws ''id'' 0 ''n'' [\<lparr>seg_text = ''Hello.''\<rparr>] ''TestUser'')
       = []
   \<and> joinWith ''. '' (map seg_text [\<lparr>seg_text = []\<rparr>]) = []
   \<and> topics (summarize_local noDraws ''id'' 0 ''n'' [\<lparr>seg_text = []\<rparr>] ''TestUser'') = []
   \<and> followUps (summarize_local noDraws ''id'' 0 ''n'' [\<lparr>seg_text = []\<rparr>] ''TestUser'') = []
   \<and> length (sentimentBySegment
               (summarize_local noDraws ''id'' 0 ''n'' [\<lparr>seg_text = []\<rparr>] ''TestUser'')) = 1"
proof -
  have h: "splitSentences ''Hello.'' = []"
    by code_simp
  from h summarize_empty [where rnd = noDraws and userName = "''TestUser''"
      and newId = "''id''" and now = 0 and nid = "''n''" and transcript = "''Hello.''"
      and segments = "[\<lparr>seg_text = ''Hello.''\<rparr>]"]
  have "tldr (summarize noDraws ''Hello.'' ''TestUser'') = []
   \<and> keyPoints (summarize noDraws ''Hello.'' ''TestUser'') = []
   \<and> actionItems (summarize noDraws ''Hello.'' ''TestUser'') = []
   \<and> highlights (summarize noDraws ''Hello.'' ''TestUser'') = []
   \<and> tldr (summarize_local noDraws ''id'' 0 ''n'' [\<lparr>seg_text = ''Hello.''\<rparr>] ''TestUser'') = []
   \<and> highlights (summarize_local noDraws ''id'' 0 ''n'' [\<lparr>seg_text = ''Hello.''\<rparr>] ''TestUser'')
       = []"
    unfolding joined_empty_values by blast
  moreover from summarize_empty [where rnd = noDraws and userName = "''TestUser''"
      and newId = "''id''" and now = 0 and nid = "''n''" and transcript = "[]"
      and segments = "[\<lparr>seg_text = []\<rparr>]"]
  have "topics (summarize_local noDraws ''id'' 0 ''n'' [\<lparr>seg_text = []\<rparr>] ''TestUser'') = []
   \<and> followUps (summarize_local noDraws ''id'' 0 ''n'' [\<lparr>seg_text = []\<rparr>] ''TestUser'') = []
   \<and> length (sentimentBySegment
               (summarize_local noDraws ''id'' 0 ''n'' [\<lparr>seg_text = []\<rparr>] ''TestUser'')) = 1"
    unfolding joined_empty_values by simp
  ultimately show ?thesis
    using h joined_empty_values(1) by blast
qed

text \<open>
  Claim C7 as it is written fails for a transcript that yields no sentences: \<open>Hello.\<close> is
  too short to be a sentence, yet it gives a topic, a follow-up question and a sentiment
  score, in the offline provider and in the local summarizer, since these are drawn from
  the transcript itself and from the segments. It fails for an empty transcript of the
  local summarizer as well: one segment with the empty text is joined to the empty
  transcript, and it has its sentiment score.
\<close>

theorem summarize_no_sentences_counterexample:
  "splitSentences ''Hello.'' = []
   \<and> topics (summarize noDraws ''Hello.'' ''TestUser'') = [''Hello'']
   \<and> followUps (summarize noDraws ''Hello.'' ''TestUser'') = [''Who is responsible for Hello?'']
   \<and> sentimentBySegment (summarize noDraws ''Hello.'' ''TestUser'') = [0]
   \<and> joinWith ''. '' (map seg_text [\<lparr>seg_text = ''Hello.''\<rparr>]) = ''Hello.''
   \<and> topics (summarize_local noDraws ''id'' 0 ''n'' [\<lparr>seg_text = ''Hello.''\<rparr>] ''TestUser'')
       = [''Hello'']
   \<and> followUps (summarize_local noDraws ''id'' 0 ''n'' [\<lparr>seg_text = ''Hello.''\<rparr>] ''TestUser'')
       = [''Who is responsible for Hello?'']
   \<and> sentimentBySegment
        (summarize_local noDraws ''id'' 0 ''n'' [\<lparr>seg_text = ''Hello.''\<rparr>] ''TestUser'') = [0]
   \<and> joinWith ''. '' (map seg_text [\<lparr>seg_text = []\<rparr>]) = []
   \<and> sentimentBySegment
        (summarize_local noDraws ''id'' 0 ''n'' [\<lparr>seg_text = []\<rparr>] ''TestUser'') = [0]"
proof -
  have "splitSentences ''Hello.'' = []"
    by code_simp
  moreover have "extractTopics ''Hello.'' = [''Hello'']"
    by code_simp
  moreover have "generateFollowUps noDraws [''Hello''] = [''Who is responsible for Hello?'']"
    by code_simp
  moreover have "analyzeSentimentBatch (filter (\<lambda>s. s \<noteq> []) (splitDotSpace [] ''Hello.'')) = [0]"
    by code_simp
  moreover have "analyzeSentimentBatch [''Hello.''] = [0]"
    by code_simp
  moreover have "analyzeSentimentBatch [[]] = [0]"
    by code_simp
  ultimately show ?thesis
    by (simp add: summarize_fields summarize_local_fields joined_empty_values)
qed

text \<open>
  Claim C1 at its input. The four sentences of the scenario are found, and the decision
  and the open question are extracted as the claim says. No action item is extracted: no
  cue of \<open>ACTION_CUES\<close> matches the sentence about Alice, because the cue with \<open>will\<close>
  asks for one of \<open>i, we, he, she, they, you\<close> right before the white space in front of
  it. Owner and due date alone would come out as the claim names them, and with the
  subject \<open>She\<close> the same sentence does give an item.
\<close>

theorem scenario_has_no_action_item:
  "splitSentences scenario =
     [''Revenue grew by 15% last quarter.'',
      ''We decided to move forward with the new platform.'',
      ''Alice will prepare the Q2 budget report by Friday.'',
      ''When will the new hire start?'']
   \<and> decisions (summarize rnd scenario ''TestUser'')
       = [''We decided to move forward with the new platform.'']
   \<and> openQuestions (summarize rnd scenario ''TestUser'') = [''When will the new hire start?'']
   \<and> actionItems (summarize rnd scenario ''TestUser'') = []
   \<and> list_all (\<lambda>cue. rxExec cue ''Alice will prepare the Q2 budget report by Friday.'' = None)
         ACTION_CUES
   \<and> detectOwner ''Alice will prepare the Q2 budget report by Friday.'' ''TestUser'' = ''Alice''
   \<and> detectDue ''Alice will prepare the Q2 budget report by Friday.'' = Some ''Friday''
   \<and> extractActionItems [''She will prepare the Q2 budget report by Friday.''] ''TestUser''
       = [\<lparr>owner = ''She'', task = ''prepare the Q2 budget report by Friday.'',
           due = Some ''Friday''\<rparr>]"
proof -
  have s: "splitSentences scenario =
     [''Revenue grew by 15% last quarter.'',
      ''We decided to move forward with the new platform.'',
      ''Alice will prepare the Q2 budget report by Friday.'',
      ''When will the new hire start?'']"
    by code_simp
  have d: "extractDecisions [''Revenue grew by 15% last quarter.'',
      ''We decided to move forward with the new platform.'',
      ''Alice will prepare the Q2 budget report by Friday.'',
      ''When will the new hire start?'']
     = [''We decided to move forward with the new platform.'']"
    by code_simp
  have q: "take 10 (filter endsWithQuestionMark [''Revenue grew by 15% last quarter.'',
      ''We decided to move forward with the new platform.'',
      ''Alice will prepare the Q2 budget report by Friday.'',
      ''When will the new hire start?''])
     = [''When will the new hire start?'']"
    by code_simp
  have a: "extractActionItems [''Revenue grew by 15% last quarter.'',
      ''We decided to move forward with the new platform.'',
      ''Alice will prepare the Q2 budget report by Friday.'',
      ''When will the new hire start?''] ''TestUser'' = []"
    by code_simp
  have c: "list_all (\<lambda>cue. rxExec cue ''Alice will prepare the Q2 budget report by Friday.'' = None)
         ACTION_CUES"
    by code_simp
  have o: "detectOwner ''Alice will prepare the Q2 budget report by Friday.'' ''TestUser'' = ''Alice''"
    by code_simp
  have u: "detectDue ''Alice will prepare the Q2 budget report by Friday.'' = Some ''Friday''"
    by code_simp
  have e: "extractActionItems [''She will prepare the Q2 budget report by Friday.''] ''TestUser''
       = [\<lparr>owner = ''She'', task = ''prepare the Q2 budget report by Friday.'',
           due = Some ''Friday''\<rparr>]"
    by code_simp
  show ?thesis
    unfolding summarize_fields s d q a using c o u e by simp
qed

end
